theory Spec2Isabelle
  imports Main "HOL-Library.Word" "HOL-Library.AList"
begin

section \<open>Values of the JavaScript run time\<close>

text \<open>
  The relay in \<^verbatim>\<open>src/server/index.js\<close> moves three kinds of data: raw audio buffers,
  JSON objects and the strings that \<^verbatim>\<open>JSON.stringify\<close> makes of them. A buffer is a list
  of bytes, a JSON value is a tree, a string is a list of (ASCII) characters.
\<close>

type_synonym byte = "8 word"

datatype json =
    JNull
  | JBool bool
  | JNum int
  | JStr string
  | JArr "json list"
  | JObj "(string \<times> json) list"

text \<open>
  \<open>JObj\<close> lists the own properties of an object in insertion order; a property is read
  with \<open>map_of\<close>, absent meaning \<^verbatim>\<open>undefined\<close>. \<open>JNum\<close> carries the integral numbers
  only: the program writes \<^verbatim>\<open>300\<close> and \<^verbatim>\<open>1000\<close> and never inspects a number it reads.
\<close>

definition digit_char :: "nat \<Rightarrow> char" where
  "digit_char d = (if d < 16 then ''0123456789abcdef'' ! d else CHR ''?'')"

function show_nat :: "nat \<Rightarrow> string" where
  "show_nat n = (if n < 10 then [digit_char n] else show_nat (n div 10) @ [digit_char (n mod 10)])"
  by pat_completeness auto
termination
  by (relation "measure id") auto

declare show_nat.simps [simp del]

text \<open>Number-to-string conversion of an integral number (template literals, \<^verbatim>\<open>JSON.stringify\<close>).\<close>

definition show_int :: "int \<Rightarrow> string" where
  "show_int i = (if i < 0 then CHR ''-'' # show_nat (nat (- i)) else show_nat (nat i))"

text \<open>\<^verbatim>\<open>buffer.toString("hex")\<close>: two lower-case hexadecimal digits for each byte.\<close>

definition hex_byte :: "byte \<Rightarrow> string" where
  "hex_byte b = [digit_char (unat b div 16), digit_char (unat b mod 16)]"

definition toString_hex :: "byte list \<Rightarrow> string" where
  "toString_hex bs = concat (map hex_byte bs)"

text \<open>\<^verbatim>\<open>buffer.toString("base64")\<close>: the standard alphabet of RFC 4648, with padding.\<close>

definition base64_char :: "nat \<Rightarrow> char" where
  "base64_char n =
     (if n < 64 then ''ABCDEFGHIJKLMNOPQRSTUVWXYZabcdefghijklmnopqrstuvwxyz0123456789+/'' ! n
      else CHR ''?'')"

fun toString_base64 :: "byte list \<Rightarrow> string" where
  "toString_base64 [] = []"
| "toString_base64 [a] =
     [base64_char (unat a div 4), base64_char (unat a mod 4 * 16), CHR ''='', CHR ''='']"
| "toString_base64 [a, b] =
     [base64_char (unat a div 4), base64_char (unat a mod 4 * 16 + unat b div 16),
      base64_char (unat b mod 16 * 4), CHR ''='']"
| "toString_base64 (a # b # c # rest) =
     [base64_char (unat a div 4), base64_char (unat a mod 4 * 16 + unat b div 16),
      base64_char (unat b mod 16 * 4 + unat c div 64), base64_char (unat c mod 64)]
     @ toString_base64 rest"

text \<open>
  \<^verbatim>\<open>JSON.stringify\<close> on the values above. A string is quoted, with the quotation mark, the
  backslash and the control characters escaped; an object is its members in order.
\<close>

definition quote_char :: "char \<Rightarrow> string" where
  "quote_char c =
     (if c = CHR 0x22 then [CHR 0x5C, CHR 0x22]
      else if c = CHR 0x5C then [CHR 0x5C, CHR 0x5C]
      else if c = CHR 0x08 then [CHR 0x5C, CHR ''b'']
      else if c = CHR 0x09 then [CHR 0x5C, CHR ''t'']
      else if c = CHR 0x0A then [CHR 0x5C, CHR ''n'']
      else if c = CHR 0x0C then [CHR 0x5C, CHR ''f'']
      else if c = CHR 0x0D then [CHR 0x5C, CHR ''r'']
      else if (of_char c :: nat) < 32 then
        [CHR 0x5C, CHR ''u'', CHR ''0'', CHR ''0'',
         digit_char (of_char c div 16), digit_char (of_char c mod 16)]
      else [c])"

definition quote :: "string \<Rightarrow> string" where
  "quote s = [CHR 0x22] @ concat (map quote_char s) @ [CHR 0x22]"

fun join :: "string \<Rightarrow> string list \<Rightarrow> string" where
  "join sep [] = []"
| "join sep [x] = x"
| "join sep (x # y # ys) = x @ sep @ join sep (y # ys)"

fun JSON_stringify :: "json \<Rightarrow> string" where
  "JSON_stringify JNull = ''null''"
| "JSON_stringify (JBool b) = (if b then ''true'' else ''false'')"
| "JSON_stringify (JNum n) = show_int n"
| "JSON_stringify (JStr s) = quote s"
| "JSON_stringify (JArr xs) = ''['' @ join '','' (map JSON_stringify xs) @ '']''"
| "JSON_stringify (JObj fs) =
     ''{'' @ join '','' (map (\<lambda>(k, v). quote k @ '':'' @ JSON_stringify v) fs) @ ''}''"

datatype js_error = TypeError | SyntaxError | WsNotOpen | WsConstructorError

section \<open>Configuration (lines 8-10)\<close>

record env =
  env_GEMINI_API_KEY :: "string option"
  env_GOOGLE_API_KEY :: "string option"
  env_API_KEY :: "string option"
  env_GEMINI_MODEL :: "string option"

text \<open>
  An environment variable is a string or \<^verbatim>\<open>undefined\<close>; the empty string and
  \<^verbatim>\<open>undefined\<close> are the falsy ones, and \<^verbatim>\<open>a || b\<close> is \<open>a\<close> when \<open>a\<close> is truthy, else \<open>b\<close>.
\<close>

definition truthy :: "string option \<Rightarrow> bool" where
  "truthy a = (case a of None \<Rightarrow> False | Some s \<Rightarrow> s \<noteq> [])"

definition js_or :: "string option \<Rightarrow> string option \<Rightarrow> string option" where
  "js_or a b = (if truthy a then a else b)"

definition GEMINI_API_KEY :: "env \<Rightarrow> string option" where
  "GEMINI_API_KEY e = js_or (js_or (env_GEMINI_API_KEY e) (env_GOOGLE_API_KEY e)) (env_API_KEY e)"

definition GEMINI_MODEL :: "env \<Rightarrow> string" where
  "GEMINI_MODEL e =
     (case env_GEMINI_MODEL e of
        None \<Rightarrow> ''gemini-2.0-flash-live-001''
      | Some m \<Rightarrow> if m = [] then ''gemini-2.0-flash-live-001'' else m)"

section \<open>Sockets, connection records and the registry\<close>

text \<open>
  A \<^verbatim>\<open>ws\<close> socket is an object shared between the registry and the callbacks that closed
  over it, so sockets live in a store and are named by their index. Of a socket the relay
  reads \<^verbatim>\<open>readyState\<close> and calls \<^verbatim>\<open>send\<close> and \<^verbatim>\<open>close\<close>; the model keeps the state, the
  log of the frames handed to \<^verbatim>\<open>send\<close> while the socket was open, and the number of
  \<^verbatim>\<open>close\<close> calls. Frames sent by the relay are text, or the binary frame
  \<^verbatim>\<open>Buffer.from(s, "base64")\<close>, which is kept as the text \<open>s\<close> it is decoded from.
\<close>

datatype ready_state = CONNECTING | OPEN | CLOSING | CLOSED

datatype frame = Text string | Binary_from_base64 string

record socket =
  readyState :: ready_state
  sent :: "frame list"
  closeCalls :: nat

type_synonym sock_id = nat
type_synonym conn_id = string

record connection =
  clientWs :: sock_id
  geminiWs :: sock_id
  connected :: bool
  lastActivity :: int
  isGenerating :: bool

text \<open>
  \<open>activeConnections\<close> is the \<^verbatim>\<open>Map\<close> of line 31, in insertion order. \<open>clientSockets\<close>
  holds the sockets the WebSocket server accepted, \<open>geminiSockets\<close> the ones made by
  \<^verbatim>\<open>new WebSocket(...)\<close>; \<open>nextClient\<close> and \<open>nextGemini\<close> are the next free indices.
\<close>

record world =
  clientSockets :: "sock_id \<Rightarrow> socket"
  geminiSockets :: "sock_id \<Rightarrow> socket"
  nextClient :: nat
  nextGemini :: nat
  activeConnections :: "(conn_id \<times> connection) list"

type_synonym outcome = "js_error option \<times> world"

text \<open>
  What a call leaves behind: the exception it threw, if any, and the world as it was at that
  moment (an exception undoes nothing).
\<close>

definition new_socket :: "ready_state \<Rightarrow> socket" where
  "new_socket st = \<lparr>readyState = st, sent = [], closeCalls = 0\<rparr>"

definition initial_world :: world where
  "initial_world =
     \<lparr>clientSockets = (\<lambda>_. new_socket CLOSED), geminiSockets = (\<lambda>_. new_socket CLOSED),
      nextClient = 0, nextGemini = 0, activeConnections = []\<rparr>"

text \<open>
  \<^verbatim>\<open>socket.send(data)\<close> of the \<^verbatim>\<open>ws\<close> package: throws while the socket is still connecting,
  transmits on an open socket, and without a callback does nothing once the socket is
  closing or closed.
\<close>

definition ws_send :: "frame \<Rightarrow> socket \<Rightarrow> js_error option \<times> socket" where
  "ws_send f s =
     (case readyState s of
        CONNECTING \<Rightarrow> (Some WsNotOpen, s)
      | OPEN \<Rightarrow> (None, s\<lparr>sent := sent s @ [f]\<rparr>)
      | CLOSING \<Rightarrow> (None, s)
      | CLOSED \<Rightarrow> (None, s))"

text \<open>\<^verbatim>\<open>socket.close()\<close>: a socket that is not yet closed starts closing.\<close>

definition ws_close :: "socket \<Rightarrow> socket" where
  "ws_close s =
     s\<lparr>readyState := (if readyState s = CLOSED then CLOSED else CLOSING),
       closeCalls := Suc (closeCalls s)\<rparr>"

definition client_send :: "sock_id \<Rightarrow> frame \<Rightarrow> world \<Rightarrow> outcome" where
  "client_send i f w =
     (case ws_send f (clientSockets w i) of
        (e, s) \<Rightarrow> (e, w\<lparr>clientSockets := (clientSockets w)(i := s)\<rparr>))"

definition gemini_send :: "sock_id \<Rightarrow> frame \<Rightarrow> world \<Rightarrow> outcome" where
  "gemini_send i f w =
     (case ws_send f (geminiSockets w i) of
        (e, s) \<Rightarrow> (e, w\<lparr>geminiSockets := (geminiSockets w)(i := s)\<rparr>))"

definition gemini_close :: "sock_id \<Rightarrow> world \<Rightarrow> world" where
  "gemini_close i w = w\<lparr>geminiSockets := (geminiSockets w)(i := ws_close (geminiSockets w i))\<rparr>"

text \<open>An assignment to a field of the record stored under an id.\<close>

definition modify :: "conn_id \<Rightarrow> (connection \<Rightarrow> connection) \<Rightarrow> world \<Rightarrow> world" where
  "modify connectionId f w =
     w\<lparr>activeConnections := AList.map_entry connectionId f (activeConnections w)\<rparr>"

text \<open>Statements in sequence: the second runs only if the first did not throw.\<close>

definition seq :: "outcome \<Rightarrow> (world \<Rightarrow> outcome) \<Rightarrow> outcome" where
  "seq r k = (case r of (None, w) \<Rightarrow> k w | (Some e, w) \<Rightarrow> (Some e, w))"


section \<open>The session with the upstream (lines 67-207)\<close>

definition systemInstructionText :: string where
  "systemInstructionText =
    ''You are Rev, the AI assistant for Revolt Motors, an innovative electric vehicle company. \<newline>'' @
    ''                \<newline>'' @
    ''Key information about Revolt Motors:\<newline>'' @
    ''- Leading manufacturer of electric motorcycles and scooters\<newline>'' @
    ''- Founded with a mission to revolutionize urban mobility\<newline>'' @
    ''- Known for high-performance, eco-friendly electric vehicles\<newline>'' @
    ''- Offers smart connectivity features and IoT integration\<newline>'' @
    ''- Focuses on sustainable transportation solutions\<newline>'' @
    ''\<newline>'' @
    ''Your personality:\<newline>'' @
    ''- Friendly, knowledgeable, and enthusiastic about electric vehicles\<newline>'' @
    ''- Speak naturally and conversationally\<newline>'' @
    ''- Keep responses concise but informative\<newline>'' @
    ''- Show passion for sustainable transportation and innovation\<newline>'' @
    ''\<newline>'' @
    ''Guidelines:\<newline>'' @
    ''- Always stay in character as Rev from Revolt Motors\<newline>'' @
    ''- Provide helpful information about electric vehicles, sustainability, and Revolt Motors\<newline>'' @
    ''- If asked about competitors, be respectful but highlight Revolt's unique advantages\<newline>'' @
    ''- For technical questions outside your expertise, acknowledge limitations\<newline>'' @
    ''- Encourage interest in electric mobility and environmental consciousness\<newline>'' @
    ''\<newline>'' @
    ''Remember: You're having a voice conversation, so speak naturally and avoid overly formal language.''"

definition setupMessage :: "env \<Rightarrow> json" where
  "setupMessage e =
     JObj [(''setup'', JObj
       [(''model'', JStr (''models/'' @ GEMINI_MODEL e)),
        (''generationConfig'', JObj
          [(''responseModalities'', JArr [JStr ''AUDIO'']),
           (''speechConfig'', JObj
             [(''voiceConfig'', JObj
               [(''prebuiltVoiceConfig'', JObj [(''voiceName'', JStr ''Aoede'')])])])]),
        (''systemInstruction'', JObj
          [(''parts'', JArr [JObj [(''text'', JStr systemInstructionText)]])]),
        (''realtimeInputConfig'', JObj
          [(''automaticActivityDetection'', JObj
             [(''disabled'', JBool False),
              (''startOfSpeechSensitivity'', JStr ''START_SENSITIVITY_HIGH''),
              (''endOfSpeechSensitivity'', JStr ''END_SENSITIVITY_HIGH''),
              (''prefixPaddingMs'', JNum 300),
              (''silenceDurationMs'', JNum 1000)]),
           (''activityHandling'', JStr ''START_OF_ACTIVITY_INTERRUPTS'')])])]"

text \<open>
  \<^verbatim>\<open>new WebSocket(url, options)\<close> either returns a socket, which is then connecting, or
  throws; which of the two is the environment's choice. The client socket handed to
  \<open>initializeGeminiSession\<close> and the upstream socket stored in a record are always objects,
  so the truth tests \<^verbatim>\<open>clientWs &&\<close> (line 72) and \<^verbatim>\<open>connection.geminiWs &&\<close> (line 336)
  always succeed and are not written.
\<close>

datatype constructor_result = Constructed | Throws

definition error_event :: "string \<Rightarrow> frame" where
  "error_event msg = Text (JSON_stringify (JObj [(''type'', JStr ''error''), (''message'', JStr msg)]))"

definition initializeGeminiSession ::
  "env \<Rightarrow> conn_id \<Rightarrow> sock_id \<Rightarrow> constructor_result \<Rightarrow> int \<Rightarrow> world \<Rightarrow> outcome" where
  "initializeGeminiSession e connectionId clientWs' ctor now w =
     (if \<not> truthy (GEMINI_API_KEY e) then
        (if readyState (clientSockets w clientWs') = OPEN then
           client_send clientWs'
             (error_event ''Server is missing Gemini API key. Ask the administrator to set GEMINI_API_KEY.'') w
         else (None, w))
      else
        (case ctor of
           Throws \<Rightarrow> client_send clientWs' (error_event ''Failed to connect to Gemini Live API'') w
         | Constructed \<Rightarrow>
             (let geminiWs' = nextGemini w;
                  w1 = w\<lparr>geminiSockets := (geminiSockets w)(geminiWs' := new_socket CONNECTING),
                         nextGemini := Suc geminiWs'\<rparr>
              in (None,
                  w1\<lparr>activeConnections :=
                       AList.update connectionId
                         \<lparr>clientWs = clientWs', geminiWs = geminiWs', connected = False,
                          lastActivity = now, isGenerating = False\<rparr>
                         (activeConnections w1)\<rparr>))))"

text \<open>
  The callbacks on the upstream socket. The socket is open when \<^verbatim>\<open>open\<close> fires and closed
  when \<^verbatim>\<open>close\<close> fires; that part is the \<^verbatim>\<open>ws\<close> package's and is written in \<open>step\<close> below.
\<close>

definition gemini_on_open :: "env \<Rightarrow> sock_id \<Rightarrow> world \<Rightarrow> outcome" where
  "gemini_on_open e geminiWs' w = gemini_send geminiWs' (Text (JSON_stringify (setupMessage e))) w"

definition gemini_on_close :: "conn_id \<Rightarrow> world \<Rightarrow> outcome" where
  "gemini_on_close connectionId w =
     (case map_of (activeConnections w) connectionId of
        None \<Rightarrow> (None, w)
      | Some connection \<Rightarrow>
          if readyState (clientSockets w (clientWs connection)) = OPEN then
            client_send (clientWs connection)
              (Text (JSON_stringify (JObj [(''type'', JStr ''connection''),
                                           (''status'', JStr ''disconnected''),
                                           (''message'', JStr ''Gemini session ended'')]))) w
          else (None, w))"

definition gemini_on_error :: "conn_id \<Rightarrow> world \<Rightarrow> outcome" where
  "gemini_on_error connectionId w =
     (case map_of (activeConnections w) connectionId of
        None \<Rightarrow> (None, w)
      | Some connection \<Rightarrow>
          if readyState (clientSockets w (clientWs connection)) = OPEN then
            client_send (clientWs connection) (error_event ''Gemini connection failed'') w
          else (None, w))"

section \<open>Messages from the upstream (lines 209-268)\<close>

text \<open>
  A parsed upstream message, with the fields the relay reads. A field the upstream left
  out is \<^verbatim>\<open>undefined\<close>: \<open>None\<close> for a string or an object, \<open>False\<close> for a flag, which
  the relay only tests for truth.
\<close>

record inline_data =
  mimeType :: "string option"
  data :: "string option"

record part =
  inlineData :: "inline_data option"

record model_turn =
  parts :: "part list option"

record server_content =
  modelTurn :: "model_turn option"
  generationComplete :: bool
  interrupted :: bool
  turnComplete :: bool

record gemini_message =
  setupComplete :: bool
  serverContent :: "server_content option"

definition startsWith :: "string \<Rightarrow> string \<Rightarrow> bool" where
  "startsWith s p = (take (length p) s = p)"

text \<open>
  The loop over \<^verbatim>\<open>content.modelTurn.parts\<close>. Calling \<^verbatim>\<open>startsWith\<close> on a missing MIME type
  and \<^verbatim>\<open>Buffer.from\<close> on missing data throw a \<^verbatim>\<open>TypeError\<close>, which ends the loop with the
  frames sent so far.
\<close>

fun send_parts :: "sock_id \<Rightarrow> part list \<Rightarrow> world \<Rightarrow> outcome" where
  "send_parts c [] w = (None, w)"
| "send_parts c (p # ps) w =
     (case inlineData p of
        None \<Rightarrow> send_parts c ps w
      | Some d \<Rightarrow>
          (case mimeType d of
             None \<Rightarrow> (Some TypeError, w)
           | Some mt \<Rightarrow>
               if startsWith mt ''audio/'' then
                 (case data d of
                    None \<Rightarrow> (Some TypeError, w)
                  | Some b64 \<Rightarrow>
                      (case client_send c (Binary_from_base64 b64) w of
                         (None, w') \<Rightarrow> send_parts c ps w'
                       | (Some e, w') \<Rightarrow> (Some e, w')))
               else send_parts c ps w))"

definition type_event :: "string \<Rightarrow> frame" where
  "type_event ty = Text (JSON_stringify (JObj [(''type'', JStr ty)]))"

definition handleGeminiMessage :: "conn_id \<Rightarrow> gemini_message \<Rightarrow> world \<Rightarrow> outcome" where
  "handleGeminiMessage connectionId message w =
     (case map_of (activeConnections w) connectionId of
        None \<Rightarrow> (None, w)
      | Some connection \<Rightarrow>
          if readyState (clientSockets w (clientWs connection)) \<noteq> OPEN then (None, w)
          else
            seq (if setupComplete message then
                   client_send (clientWs connection)
                     (Text (JSON_stringify (JObj [(''type'', JStr ''connection''),
                                                  (''status'', JStr ''connected''),
                                                  (''connectionId'', JStr connectionId)])))
                     (modify connectionId (\<lambda>c. c\<lparr>connected := True\<rparr>) w)
                 else (None, w))
            (\<lambda>w. case serverContent message of
               None \<Rightarrow> (None, w)
             | Some content \<Rightarrow>
                 seq (case modelTurn content of
                        None \<Rightarrow> (None, w)
                      | Some turn \<Rightarrow>
                          (case parts turn of
                             None \<Rightarrow> (None, w)
                           | Some ps \<Rightarrow> send_parts (clientWs connection) ps w))
                 (\<lambda>w. seq (if generationComplete content then
                              client_send (clientWs connection) (type_event ''generation_complete'')
                                (modify connectionId (\<lambda>c. c\<lparr>isGenerating := False\<rparr>) w)
                            else (None, w))
                 (\<lambda>w. seq (if interrupted content then
                              client_send (clientWs connection) (type_event ''interrupted'')
                                (modify connectionId (\<lambda>c. c\<lparr>isGenerating := False\<rparr>) w)
                            else (None, w))
                 (\<lambda>w. if turnComplete content then
                         client_send (clientWs connection) (type_event ''turn_complete'')
                           (modify connectionId (\<lambda>c. c\<lparr>isGenerating := False\<rparr>) w)
                       else (None, w))))))"

text \<open>
  The \<^verbatim>\<open>message\<close> callback of the upstream socket: \<open>None\<close> is a payload that
  \<^verbatim>\<open>JSON.parse\<close> rejects. Whatever is thrown is logged and goes no further.
\<close>

definition gemini_on_message :: "conn_id \<Rightarrow> gemini_message option \<Rightarrow> world \<Rightarrow> outcome" where
  "gemini_on_message connectionId parsed w =
     (case parsed of
        None \<Rightarrow> (None, w)
      | Some message \<Rightarrow> (None, snd (handleGeminiMessage connectionId message w)))"

section \<open>Messages from the client (lines 40-54 and 270-330)\<close>

definition audio_envelope :: "byte list \<Rightarrow> frame" where
  "audio_envelope audioData =
     Text (JSON_stringify
       (JObj [(''realtimeInput'', JObj
         [(''audio'', JObj [(''mimeType'', JStr ''audio/pcm''),
                            (''data'', JStr (toString_base64 audioData))])])]))"

definition handleAudioInput :: "conn_id \<Rightarrow> byte list \<Rightarrow> int \<Rightarrow> world \<Rightarrow> outcome" where
  "handleAudioInput connectionId audioData now w =
     (case map_of (activeConnections w) connectionId of
        None \<Rightarrow> (None, w)
      | Some connection \<Rightarrow>
          if \<not> connected connection \<or> readyState (geminiSockets w (geminiWs connection)) \<noteq> OPEN
          then (None, w)
          else gemini_send (geminiWs connection) (audio_envelope audioData)
                 (modify connectionId (\<lambda>c. c\<lparr>lastActivity := now\<rparr>) w))"

text \<open>
  \<^verbatim>\<open>message.type\<close>: a \<^verbatim>\<open>TypeError\<close> on \<^verbatim>\<open>null\<close>, the property of an object, and
  \<^verbatim>\<open>undefined\<close> on a number, a string, a boolean or an array.
\<close>

definition message_type :: "json \<Rightarrow> js_error + json option" where
  "message_type message =
     (case message of
        JNull \<Rightarrow> Inl TypeError
      | JObj fs \<Rightarrow> Inr (map_of fs ''type'')
      | _ \<Rightarrow> Inr None)"

definition handleClientMessage :: "conn_id \<Rightarrow> json \<Rightarrow> world \<Rightarrow> outcome" where
  "handleClientMessage connectionId message w =
     (case map_of (activeConnections w) connectionId of
        None \<Rightarrow> (None, w)
      | Some connection \<Rightarrow>
          (case message_type message of
             Inl err \<Rightarrow> (Some err, w)
           | Inr ty \<Rightarrow>
               if ty = Some (JStr ''ping'') then
                 client_send (clientWs connection) (type_event ''pong'') w
               else if ty = Some (JStr ''interrupt'') then
                 (if readyState (geminiSockets w (geminiWs connection)) = OPEN then
                    gemini_send (geminiWs connection)
                      (Text (JSON_stringify
                        (JObj [(''realtimeInput'', JObj [(''activityStart'', JObj [])])]))) w
                  else (None, w))
               else if ty = Some (JStr ''audio_stream_end'') then
                 (if readyState (geminiSockets w (geminiWs connection)) = OPEN then
                    gemini_send (geminiWs connection)
                      (Text (JSON_stringify
                        (JObj [(''realtimeInput'', JObj [(''audioStreamEnd'', JBool True)])]))) w
                  else (None, w))
               else (None, w)))"

text \<open>
  The datum handed to the \<^verbatim>\<open>message\<close> callback is a \<^verbatim>\<open>Buffer\<close> or it is not (line 42);
  what is not a \<^verbatim>\<open>Buffer\<close> is turned into a string and parsed. \<open>Str\<close> is such a datum,
  given by what \<^verbatim>\<open>JSON.parse\<close> makes of its text, \<open>None\<close> when it throws a
  \<^verbatim>\<open>SyntaxError\<close>.
\<close>

datatype client_data = Buffer "byte list" | Str "json option"

definition client_on_message ::
  "conn_id \<Rightarrow> sock_id \<Rightarrow> client_data \<Rightarrow> int \<Rightarrow> world \<Rightarrow> outcome" where
  "client_on_message connectionId ws dat now w =
     (case (case dat of
              Buffer audioData \<Rightarrow> handleAudioInput connectionId audioData now w
            | Str None \<Rightarrow> (Some SyntaxError, w)
            | Str (Some message) \<Rightarrow> handleClientMessage connectionId message w) of
        (None, w') \<Rightarrow> (None, w')
      | (Some err, w') \<Rightarrow> client_send ws (error_event ''Failed to process message'') w')"





section \<open>Teardown, identifiers, reports and the reaper (lines 332-386, 407-430)\<close>

text \<open>
  The reaper and the shutdown handlers loop over the entries of the registry and call
  \<open>cleanupConnection\<close>, which deletes no entry but the one it is called for, so the loop
  over the live \<^verbatim>\<open>Map\<close> visits the entries that were there at the start. Of the two
  reports only what is read from the registry is kept: the number of entries, and for each
  entry its identifier, flags and timestamp (the report prints the timestamp as a date).
\<close>

definition cleanupConnection :: "conn_id \<Rightarrow> world \<Rightarrow> world" where
  "cleanupConnection connectionId w =
     (case map_of (activeConnections w) connectionId of
        None \<Rightarrow> w
      | Some connection \<Rightarrow>
          (let w' = (if readyState (geminiSockets w (geminiWs connection)) = OPEN
                     then gemini_close (geminiWs connection) w else w)
           in w'\<lparr>activeConnections := AList.delete connectionId (activeConnections w')\<rparr>))"

text \<open>
  The identifier is made of the clock (\<^verbatim>\<open>Date.now()\<close>, in milliseconds) and of the four bytes
  that \<^verbatim>\<open>crypto.randomBytes(4)\<close> returned.
\<close>

definition generateConnectionId :: "int \<Rightarrow> byte list \<Rightarrow> conn_id" where
  "generateConnectionId now randomBytes = ''conn_'' @ show_int now @ ''_'' @ toString_hex randomBytes"



definition timeout :: int where
  "timeout = 5 * 60 * 1000"

definition reaper :: "int \<Rightarrow> world \<Rightarrow> world" where
  "reaper now w =
     fold (\<lambda>(connectionId, connection) w'.
             if now - lastActivity connection > timeout then cleanupConnection connectionId w'
             else w')
       (activeConnections w) w"

definition shutdown :: "world \<Rightarrow> world" where
  "shutdown w = fold (\<lambda>(connectionId, connection). cleanupConnection connectionId) (activeConnections w) w"

section \<open>Events\<close>

text \<open>
  The event loop runs one callback at a time. An event names the callback and gives what
  the run time hands to it: the identifier and the socket the callback closed over, the
  data received, the clock.
\<close>

datatype event =
    Connection int "byte list" constructor_result int
  | ClientMessage conn_id sock_id client_data int
  | ClientClose conn_id sock_id
  | ClientError conn_id sock_id
  | GeminiOpen conn_id sock_id
  | GeminiMessage conn_id "gemini_message option"
  | GeminiClose conn_id sock_id
  | GeminiError conn_id sock_id
  | ReaperTick int
  | Shutdown

definition set_client_state :: "sock_id \<Rightarrow> ready_state \<Rightarrow> world \<Rightarrow> world" where
  "set_client_state i st w =
     w\<lparr>clientSockets := (clientSockets w)(i := (clientSockets w i)\<lparr>readyState := st\<rparr>)\<rparr>"

definition set_gemini_state :: "sock_id \<Rightarrow> ready_state \<Rightarrow> world \<Rightarrow> world" where
  "set_gemini_state i st w =
     w\<lparr>geminiSockets := (geminiSockets w)(i := (geminiSockets w i)\<lparr>readyState := st\<rparr>)\<rparr>"

text \<open>
  \<open>Connection t r c t'\<close> is the \<^verbatim>\<open>connection\<close> callback of lines 33-38: the server has
  accepted a socket, which is open; \<open>t\<close> and \<open>r\<close> are the clock and the random bytes of
  \<open>generateConnectionId\<close>, \<open>c\<close> the result of the upstream constructor and \<open>t'\<close> the clock when
  the record is stored. The state of a socket when one of its callbacks runs is the
  \<^verbatim>\<open>ws\<close> package's: open at \<^verbatim>\<open>open\<close>, closed at \<^verbatim>\<open>close\<close>, and closing at \<^verbatim>\<open>error\<close>, which
  the package emits after it has started to close the socket.
\<close>

fun step :: "env \<Rightarrow> event \<Rightarrow> world \<Rightarrow> outcome" where
  "step e (Connection t r c t') w =
     (let ws = nextClient w;
          w1 = w\<lparr>clientSockets := (clientSockets w)(ws := new_socket OPEN), nextClient := Suc ws\<rparr>
      in initializeGeminiSession e (generateConnectionId t r) ws c t' w1)"
| "step e (ClientMessage connectionId ws dat now) w = client_on_message connectionId ws dat now w"
| "step e (ClientClose connectionId ws) w =
     (None, cleanupConnection connectionId (set_client_state ws CLOSED w))"
| "step e (ClientError connectionId ws) w =
     (None, cleanupConnection connectionId (set_client_state ws CLOSING w))"
| "step e (GeminiOpen connectionId g) w =
     (if readyState (geminiSockets w g) = CONNECTING
      then gemini_on_open e g (set_gemini_state g OPEN w) else (None, w))"
| "step e (GeminiMessage connectionId parsed) w = gemini_on_message connectionId parsed w"
| "step e (GeminiClose connectionId g) w = gemini_on_close connectionId (set_gemini_state g CLOSED w)"
| "step e (GeminiError connectionId g) w = gemini_on_error connectionId (set_gemini_state g CLOSING w)"
| "step e (ReaperTick now) w = (None, reaper now w)"
| "step e Shutdown w = (None, shutdown w)"

text \<open>
  A run of the server: the events in order, each on the world the one before left. An
  exception that leaves a callback is not seen by the next one.
\<close>

fun run :: "env \<Rightarrow> event list \<Rightarrow> world \<Rightarrow> world" where
  "run e [] w = w"
| "run e (ev # evs) w = run e evs (snd (step e ev w))"


section \<open>Scenarios\<close>

text \<open>
  The inputs the statements below are about: the events of a sequence of audio frames, the
  three upstream signals, the identifiers of a sequence of connections, and the event that
  stores a record under a given identifier.
\<close>

definition audio_frames :: "conn_id \<Rightarrow> sock_id \<Rightarrow> (byte list \<times> int) list \<Rightarrow> event list" where
  "audio_frames connectionId ws frames =
     map (\<lambda>(audioData, now). ClientMessage connectionId ws (Buffer audioData) now) frames"

definition signal :: "bool \<Rightarrow> bool \<Rightarrow> bool \<Rightarrow> gemini_message" where
  "signal gc i tc =
     \<lparr>setupComplete = False,
      serverContent = Some \<lparr>modelTurn = None, generationComplete = gc, interrupted = i,
                            turnComplete = tc\<rparr>\<rparr>"

definition connection_ids :: "(int \<times> byte list) list \<Rightarrow> conn_id list" where
  "connection_ids draws = map (\<lambda>(now, randomBytes). generateConnectionId now randomBytes) draws"

definition registers :: "conn_id \<Rightarrow> event \<Rightarrow> bool" where
  "registers k ev = (case ev of Connection t r c t' \<Rightarrow> generateConnectionId t r = k | _ \<Rightarrow> False)"

text \<open>
  Two configurations, with and without a credential, and the worlds reached from the start
  by one connection: with its record stored, with the upstream set up, and refused for
  want of a credential.
\<close>

definition env_with_key :: env where
  "env_with_key = \<lparr>env_GEMINI_API_KEY = Some ''secret'', env_GOOGLE_API_KEY = None,
                    env_API_KEY = None, env_GEMINI_MODEL = None\<rparr>"

definition env_without_key :: env where
  "env_without_key = \<lparr>env_GEMINI_API_KEY = None, env_GOOGLE_API_KEY = Some [],
                    env_API_KEY = None, env_GEMINI_MODEL = None\<rparr>"

definition connect_event :: event where
  "connect_event = Connection 1000 [0xde, 0xad, 0xbe, 0xef] Constructed 1001"

definition setup_complete_message :: gemini_message where
  "setup_complete_message = \<lparr>setupComplete = True, serverContent = None\<rparr>"

definition world_registered :: world where
  "world_registered = run env_with_key [connect_event] initial_world"

definition world_ready :: world where
  "world_ready = run env_with_key
     [connect_event, GeminiOpen ''conn_1000_deadbeef'' 0,
      GeminiMessage ''conn_1000_deadbeef'' (Some setup_complete_message)] initial_world"


section \<open>Encodings\<close>

text \<open>The encoders on known values (the test vectors of RFC 4648 among them).\<close>

lemma toString_base64_vectors:
  "toString_base64 [] = ''''"
  "toString_base64 [0x66] = ''Zg==''"
  "toString_base64 [0x66, 0x6f] = ''Zm8=''"
  "toString_base64 [0x66, 0x6f, 0x6f] = ''Zm9v''"
  "toString_base64 [0x66, 0x6f, 0x6f, 0x62] = ''Zm9vYg==''"
  "toString_base64 [0x66, 0x6f, 0x6f, 0x62, 0x61] = ''Zm9vYmE=''"
  "toString_base64 [0x66, 0x6f, 0x6f, 0x62, 0x61, 0x72] = ''Zm9vYmFy''"
  "toString_base64 [0xff, 0xfe, 0xfd] = ''//79''"
  by code_simp+

lemma JSON_stringify_examples:
  \<open>JSON_stringify (JObj [(''type'', JStr ''pong'')]) = ''{"type":"pong"}''\<close>
  \<open>JSON_stringify (JObj [(''realtimeInput'', JObj [(''activityStart'', JObj [])])])
     = ''{"realtimeInput":{"activityStart":{}}}''\<close>
  \<open>JSON_stringify (JObj [(''realtimeInput'', JObj [(''audioStreamEnd'', JBool True)])])
     = ''{"realtimeInput":{"audioStreamEnd":true}}''\<close>
  \<open>JSON_stringify (JArr [JNum 300, JNum (- 7), JNull, JStr [CHR ''a'', CHR 0x0A, CHR 0x22]])
     = [CHR ''['', CHR ''3'', CHR ''0'', CHR ''0'', CHR '','', CHR ''-'', CHR ''7'', CHR '','',
        CHR ''n'', CHR ''u'', CHR ''l'', CHR ''l'', CHR '','',
        CHR 0x22, CHR ''a'', CHR 0x5C, CHR ''n'', CHR 0x5C, CHR 0x22, CHR 0x22, CHR '']'']\<close>
  by code_simp+

lemma digit_char_inj: "a < 16 \<Longrightarrow> b < 16 \<Longrightarrow> digit_char a = digit_char b \<Longrightarrow> a = b"
proof -
  assume a: "a < 16" and b: "b < 16" and eq: "digit_char a = digit_char b"
  have d: "distinct ''0123456789abcdef''" by simp
  have l: "length ''0123456789abcdef'' = 16" by simp
  from eq a b have "''0123456789abcdef'' ! a = ''0123456789abcdef'' ! b"
    by (simp add: digit_char_def)
  with d l a b show "a = b"
    by (simp only: nth_eq_iff_index_eq)
qed

lemma digit_char_not_sep: "d < 16 \<Longrightarrow> digit_char d \<noteq> CHR ''_'' \<and> digit_char d \<noteq> CHR ''-''"
proof -
  assume d: "d < 16"
  have l: "length ''0123456789abcdef'' = 16" by simp
  from d l have "''0123456789abcdef'' ! d \<in> set ''0123456789abcdef''"
    by (simp only: nth_mem)
  moreover have "CHR ''_'' \<notin> set ''0123456789abcdef''" "CHR ''-'' \<notin> set ''0123456789abcdef''"
    by simp_all
  ultimately show ?thesis
    using d by (auto simp add: digit_char_def)
qed

lemma show_nat_chars: "c \<in> set (show_nat n) \<Longrightarrow> c \<noteq> CHR ''_'' \<and> c \<noteq> CHR ''-''"
proof (induction n rule: show_nat.induct)
  case (1 n)
  show ?case
  proof (cases "n < 10")
    case True
    with "1.prems" have "c = digit_char n" by (simp add: show_nat.simps [of n])
    with True show ?thesis using digit_char_not_sep [of n] by simp
  next
    case False
    with "1.prems" have "c \<in> set (show_nat (n div 10)) \<or> c = digit_char (n mod 10)"
      by (auto simp add: show_nat.simps [of n])
    moreover have "n mod 10 < 16"
      using mod_less_divisor [of 10 n] by linarith
    ultimately show ?thesis
      using "1.IH" False digit_char_not_sep [of "n mod 10"] by auto
  qed
qed

lemma show_nat_nonempty: "show_nat n \<noteq> []"
  by (simp add: show_nat.simps [of n])

lemma show_nat_inj: "show_nat m = show_nat n \<Longrightarrow> m = n"
proof (induction m arbitrary: n rule: show_nat.induct)
  case (1 m)
  show ?case
  proof (cases "m < 10")
    case m: True
    show ?thesis
    proof (cases "n < 10")
      case True
      with m "1.prems" have "digit_char m = digit_char n"
        by (simp add: show_nat.simps [of m] show_nat.simps [of n])
      with m True show ?thesis by (intro digit_char_inj) auto
    next
      case False
      with m "1.prems" have "[digit_char m] = show_nat (n div 10) @ [digit_char (n mod 10)]"
        by (simp add: show_nat.simps [of m] show_nat.simps [of n])
      then show ?thesis using show_nat_nonempty [of "n div 10"] by simp
    qed
  next
    case m: False
    show ?thesis
    proof (cases "n < 10")
      case True
      with m "1.prems" have "show_nat (m div 10) @ [digit_char (m mod 10)] = [digit_char n]"
        by (simp add: show_nat.simps [of m] show_nat.simps [of n])
      then show ?thesis using show_nat_nonempty [of "m div 10"] by simp
    next
      case False
      with m "1.prems" have eq: "show_nat (m div 10) = show_nat (n div 10)"
        and dg: "digit_char (m mod 10) = digit_char (n mod 10)"
        by (simp_all add: show_nat.simps [of m] show_nat.simps [of n])
      from "1.IH" [OF m eq] have "m div 10 = n div 10" .
      moreover have "m mod 10 = n mod 10"
      proof -
        have lm: "m mod 10 < 16" and ln: "n mod 10 < 16"
          using mod_less_divisor [of 10 m] mod_less_divisor [of 10 n] by linarith+
        from lm ln dg show ?thesis by (rule digit_char_inj)
      qed
      ultimately show ?thesis
        by (metis div_mult_mod_eq)
    qed
  qed
qed

lemma show_int_chars: "CHR ''_'' \<notin> set (show_int i)"
  using show_nat_chars by (auto simp add: show_int_def)

lemma show_int_inj: "show_int i = show_int j \<Longrightarrow> i = j"
proof -
  assume eq: "show_int i = show_int j"
  have no_minus: "\<And>n. hd (show_nat n) \<noteq> CHR ''-''"
    using show_nat_chars show_nat_nonempty by (metis hd_in_set)
  show "i = j"
  proof (cases "i < 0")
    case i: True
    show ?thesis
    proof (cases "j < 0")
      case True
      with i eq have "nat (- i) = nat (- j)" by (simp add: show_int_def show_nat_inj)
      with i True show ?thesis by simp
    next
      case False
      with i eq have "CHR ''-'' # show_nat (nat (- i)) = show_nat (nat j)"
        by (simp add: show_int_def)
      then have "hd (show_nat (nat j)) = CHR ''-''" by (metis list.sel(1))
      with no_minus show ?thesis by blast
    qed
  next
    case i: False
    show ?thesis
    proof (cases "j < 0")
      case True
      with i eq have "show_nat (nat i) = CHR ''-'' # show_nat (nat (- j))"
        by (simp add: show_int_def)
      then have "hd (show_nat (nat i)) = CHR ''-''" by (metis list.sel(1))
      with no_minus show ?thesis by blast
    next
      case False
      with i eq have "nat i = nat j" by (simp add: show_int_def show_nat_inj)
      with i False show ?thesis by simp
    qed
  qed
qed

lemma hex_byte_inj: "hex_byte a = hex_byte b \<Longrightarrow> a = b"
proof -
  assume eq: "hex_byte a = hex_byte b"
  have la: "unat a < 256" and lb: "unat b < 256"
    using unsigned_less [of a, where ?'a = nat] unsigned_less [of b, where ?'a = nat] by simp_all
  from eq have "digit_char (unat a div 16) = digit_char (unat b div 16)"
    and "digit_char (unat a mod 16) = digit_char (unat b mod 16)"
    by (simp_all add: hex_byte_def)
  then have "unat a div 16 = unat b div 16" and "unat a mod 16 = unat b mod 16"
    using la lb by (auto intro!: digit_char_inj)
  then have "unat a = unat b" by (metis div_mult_mod_eq)
  then show "a = b" by (simp add: word_unat_eq_iff)
qed

lemma toString_hex_inj: "toString_hex xs = toString_hex ys \<Longrightarrow> xs = ys"
proof (induction xs arbitrary: ys)
  case Nil
  then show ?case by (cases ys) (simp_all add: toString_hex_def hex_byte_def)
next
  case (Cons x xs)
  show ?case
  proof (cases ys)
    case Nil
    with Cons.prems show ?thesis by (simp add: toString_hex_def hex_byte_def)
  next
    case (Cons y ys')
    with Cons.prems have "hex_byte x @ toString_hex xs = hex_byte y @ toString_hex ys'"
      by (simp add: toString_hex_def)
    moreover have "length (hex_byte x) = length (hex_byte y)" by (simp add: hex_byte_def)
    ultimately have "hex_byte x = hex_byte y" and "toString_hex xs = toString_hex ys'"
      by simp_all
    with Cons.IH Cons show ?thesis by (simp add: hex_byte_inj)
  qed
qed

lemma toString_hex_chars: "CHR ''_'' \<notin> set (toString_hex bs)"
proof -
  have "\<And>b. CHR ''_'' \<notin> set (hex_byte b)"
  proof -
    fix b :: byte
    have "unat b < 256" using unsigned_less [of b, where ?'a = nat] by simp
    then have "unat b div 16 < 16" and "unat b mod 16 < 16" by auto
    then show "CHR ''_'' \<notin> set (hex_byte b)"
      using digit_char_not_sep [of "unat b div 16"] digit_char_not_sep [of "unat b mod 16"]
      by (simp add: hex_byte_def) metis
  qed
  then show ?thesis by (auto simp add: toString_hex_def)
qed

lemma generateConnectionId_inj:
  "generateConnectionId t1 r1 = generateConnectionId t2 r2 \<Longrightarrow> t1 = t2 \<and> r1 = r2"
proof -
  assume "generateConnectionId t1 r1 = generateConnectionId t2 r2"
  then have "show_int t1 @ CHR ''_'' # toString_hex r1 = show_int t2 @ CHR ''_'' # toString_hex r2"
    by (simp add: generateConnectionId_def)
  then have "show_int t1 = show_int t2 \<and> toString_hex r1 = toString_hex r2"
    using show_int_chars [of t1] toString_hex_chars [of r1] by (simp add: append_Cons_eq_iff)
  then show ?thesis
    by (simp add: show_int_inj toString_hex_inj)
qed

section \<open>Sends and assignments, seen through the fields of the world\<close>

lemma ws_send_OPEN: "readyState s = OPEN \<Longrightarrow> ws_send f s = (None, s\<lparr>sent := sent s @ [f]\<rparr>)"
  by (simp add: ws_send_def)

lemma ws_send_state: "readyState (snd (ws_send f s)) = readyState s"
  by (simp add: ws_send_def split: ready_state.splits)

lemma client_send_OPEN:
  "readyState (clientSockets w i) = OPEN \<Longrightarrow>
   client_send i f w =
     (None, w\<lparr>clientSockets := (clientSockets w)
               (i := (clientSockets w i)\<lparr>sent := sent (clientSockets w i) @ [f]\<rparr>)\<rparr>)"
  by (simp add: client_send_def ws_send_OPEN)

lemma gemini_send_OPEN:
  "readyState (geminiSockets w i) = OPEN \<Longrightarrow>
   gemini_send i f w =
     (None, w\<lparr>geminiSockets := (geminiSockets w)
               (i := (geminiSockets w i)\<lparr>sent := sent (geminiSockets w i) @ [f]\<rparr>)\<rparr>)"
  by (simp add: gemini_send_def ws_send_OPEN)

lemma client_send_fields:
  "activeConnections (snd (client_send i f w)) = activeConnections w"
  "geminiSockets (snd (client_send i f w)) = geminiSockets w"
  "nextClient (snd (client_send i f w)) = nextClient w"
  "nextGemini (snd (client_send i f w)) = nextGemini w"
  "readyState (clientSockets (snd (client_send i f w)) j) = readyState (clientSockets w j)"
  by (simp_all add: client_send_def ws_send_state split: prod.splits)
     (metis snd_conv ws_send_state)

lemma gemini_send_fields:
  "activeConnections (snd (gemini_send i f w)) = activeConnections w"
  "clientSockets (snd (gemini_send i f w)) = clientSockets w"
  "nextClient (snd (gemini_send i f w)) = nextClient w"
  "nextGemini (snd (gemini_send i f w)) = nextGemini w"
  by (simp_all add: gemini_send_def split: prod.splits)

lemma modify_fields:
  "clientSockets (modify k g w) = clientSockets w"
  "geminiSockets (modify k g w) = geminiSockets w"
  "nextClient (modify k g w) = nextClient w"
  "nextGemini (modify k g w) = nextGemini w"
  "map_of (activeConnections (modify k g w)) =
     (map_of (activeConnections w))(k := map_option g (map_of (activeConnections w) k))"
  by (auto simp add: modify_def map_of_map_entry fun_eq_iff split: option.splits)

lemma cleanupConnection_absent:
  "map_of (activeConnections w) k = None \<Longrightarrow> cleanupConnection k w = w"
  by (simp add: cleanupConnection_def)

lemma cleanupConnection_registry:
  "map_of (activeConnections (cleanupConnection k w)) = (map_of (activeConnections w))(k := None)"
  by (auto simp add: cleanupConnection_def gemini_close_def Let_def delete_conv' fun_eq_iff
      split: option.splits)

lemma cleanupConnection_clients:
  "clientSockets (cleanupConnection k w) = clientSockets w"
  "nextClient (cleanupConnection k w) = nextClient w"
  by (auto simp add: cleanupConnection_def gemini_close_def Let_def split: option.splits)

lemma cleanupConnection_closeCalls:
  "closeCalls (geminiSockets (cleanupConnection k w) g) \<le> Suc (closeCalls (geminiSockets w g))"
  by (auto simp add: cleanupConnection_def gemini_close_def ws_close_def Let_def split: option.splits)

lemma initializeGeminiSession_registry:
  "map_of (activeConnections (snd (initializeGeminiSession e k ws c t' w))) =
     (if truthy (GEMINI_API_KEY e) \<and> c = Constructed
      then (map_of (activeConnections w))
             (k \<mapsto> \<lparr>clientWs = ws, geminiWs = nextGemini w, connected = False,
                     lastActivity = t', isGenerating = False\<rparr>)
      else map_of (activeConnections w))"
  by (cases c) (simp_all add: initializeGeminiSession_def client_send_fields Let_def update_conv')

lemma Connection_registry:
  "map_of (activeConnections (snd (step e (Connection t r c t') w))) =
     (if truthy (GEMINI_API_KEY e) \<and> c = Constructed
      then (map_of (activeConnections w))
             (generateConnectionId t r \<mapsto>
                \<lparr>clientWs = nextClient w, geminiWs = nextGemini w, connected = False,
                 lastActivity = t', isGenerating = False\<rparr>)
      else map_of (activeConnections w))"
  by (simp add: Let_def initializeGeminiSession_registry)

lemma handleAudioInput_forwarded:
  assumes "map_of (activeConnections w) k = Some c" "connected c"
    "readyState (geminiSockets w (geminiWs c)) = OPEN"
  shows "handleAudioInput k d t w =
     (None, (modify k (\<lambda>c. c\<lparr>lastActivity := t\<rparr>) w)
        \<lparr>geminiSockets := (geminiSockets w)
           (geminiWs c := (geminiSockets w (geminiWs c))
              \<lparr>sent := sent (geminiSockets w (geminiWs c)) @ [audio_envelope d]\<rparr>)\<rparr>)"
  using assms by (simp add: handleAudioInput_def gemini_send_OPEN modify_fields)

lemma unregistered_message_ignored:
  assumes "map_of (activeConnections w) k = None"
  shows "client_on_message k ws (Buffer d) t w = (None, w)"
    and "client_on_message k ws (Str (Some m)) t w = (None, w)"
    and "client_on_message k ws (Str None) t w
          = client_send ws (error_event ''Failed to process message'') w"
  using assms by (simp_all add: client_on_message_def handleAudioInput_def handleClientMessage_def)

section \<open>Properties kept by every callback\<close>

lemma seq_inv:
  assumes "P (snd r)" and "\<And>w. P w \<Longrightarrow> P (snd (k w))"
  shows "P (snd (seq r k))"
  using assms by (cases r) (auto simp add: seq_def split: option.splits)

lemma send_parts_inv:
  assumes send: "\<And>i f w. P w \<Longrightarrow> P (snd (client_send i f w))"
    and P: "P w"
  shows "P (snd (send_parts c ps w))"
  using P
proof (induction ps arbitrary: w)
  case Nil
  then show ?case by simp
next
  case (Cons p ps)
  have sent: "\<And>b. P (snd (case client_send c b w of
          (None, w') \<Rightarrow> send_parts c ps w' | (Some e, w') \<Rightarrow> (Some e, w')))"
  proof -
    fix b
    obtain e w' where r: "client_send c b w = (e, w')" by (cases "client_send c b w")
    with send [OF Cons.prems, of c b] have "P w'" by simp
    with r Cons.IH [of w'] show "P (snd (case client_send c b w of
          (None, w') \<Rightarrow> send_parts c ps w' | (Some e, w') \<Rightarrow> (Some e, w')))"
      by (cases e) simp_all
  qed
  show ?case
    using Cons.IH [OF Cons.prems] Cons.prems sent
    by (simp split: option.splits)
qed

lemma handleGeminiMessage_inv2:
  assumes rec: "map_of (activeConnections w) k = Some connection"
    and opn: "readyState (clientSockets w (clientWs connection)) = OPEN"
    and send: "\<And>i f w. Q w \<Longrightarrow> Q (snd (client_send i f w))"
    and modg: "\<And>w. Q w \<Longrightarrow> Q (modify k (\<lambda>c. c\<lparr>isGenerating := False\<rparr>) w)"
    and first: "Q (if setupComplete m then modify k (\<lambda>c. c\<lparr>connected := True\<rparr>) w else w)"
  shows "Q (snd (handleGeminiMessage k m w))"
proof -
  have flag: "\<And>b i f w. Q w \<Longrightarrow>
      Q (snd (if b then client_send i f (modify k (\<lambda>c. c\<lparr>isGenerating := False\<rparr>) w) else (None, w)))"
    by (simp add: send modg)
  have stage1: "\<And>i f.
      Q (snd (if setupComplete m then client_send i f (modify k (\<lambda>c. c\<lparr>connected := True\<rparr>) w) else (None, w)))"
    using first by (cases "setupComplete m") (simp_all add: send)
  have turn: "\<And>i content w. Q w \<Longrightarrow>
      Q (snd (case modelTurn content of None \<Rightarrow> (None, w)
          | Some turn \<Rightarrow> (case parts turn of None \<Rightarrow> (None, w) | Some ps \<Rightarrow> send_parts i ps w)))"
    by (simp add: send_parts_inv [of Q] send split: option.splits)
  show ?thesis
  proof (cases "serverContent m")
    case None
    show ?thesis
      apply (simp only: handleGeminiMessage_def rec opn None option.case simp_thms if_False)
      apply (rule seq_inv [where P = Q])
       apply (rule stage1)
      apply simp
      done
  next
    case (Some content)
    show ?thesis
      apply (simp only: handleGeminiMessage_def rec opn Some option.case simp_thms if_False)
      apply (rule seq_inv [where P = Q])
       apply (rule stage1)
      apply (rule seq_inv [where P = Q])
       apply (erule turn)
      apply (rule seq_inv [where P = Q])
       apply (erule flag)
      apply (rule seq_inv [where P = Q])
       apply (erule flag)
      apply (erule flag)
      done
  qed
qed

lemma handleGeminiMessage_inv:
  assumes send: "\<And>i f w. P w \<Longrightarrow> P (snd (client_send i f w))"
    and modg: "\<And>w. P w \<Longrightarrow> P (modify k (\<lambda>c. c\<lparr>isGenerating := False\<rparr>) w)"
    and modc: "\<And>w. setupComplete m \<Longrightarrow> P w \<Longrightarrow> P (modify k (\<lambda>c. c\<lparr>connected := True\<rparr>) w)"
    and P: "P w"
  shows "P (snd (handleGeminiMessage k m w))"
proof (cases "map_of (activeConnections w) k")
  case None
  with P show ?thesis by (simp add: handleGeminiMessage_def)
next
  case (Some connection)
  show ?thesis
  proof (cases "readyState (clientSockets w (clientWs connection)) = OPEN")
    case False
    with Some P show ?thesis by (simp add: handleGeminiMessage_def)
  next
    case True
    from P modc have "P (if setupComplete m then modify k (\<lambda>c. c\<lparr>connected := True\<rparr>) w else w)"
      by simp
    with Some True send modg show ?thesis
      by (rule handleGeminiMessage_inv2)
  qed
qed

lemma fold_cleanup_inv:
  assumes clean: "\<And>k w. P w \<Longrightarrow> P (cleanupConnection k w)"
    and P: "P w"
  shows "P (fold (\<lambda>(connectionId, connection) w'.
                     if p connection then cleanupConnection connectionId w' else w') xs w)"
  using P
proof (induction xs arbitrary: w)
  case Nil
  then show ?case by simp
next
  case (Cons x xs)
  obtain a b where x: "x = (a, b)" by (cases x)
  from Cons.prems have "P (cleanupConnection a w)" by (rule clean)
  with Cons show ?case
    by (simp add: x)
qed

lemma handleAudioInput_inv:
  assumes send: "\<And>i f w. P w \<Longrightarrow> P (snd (gemini_send i f w))"
    and moda: "\<And>w. P w \<Longrightarrow> P (modify k (\<lambda>c. c\<lparr>lastActivity := t\<rparr>) w)"
    and P: "P w"
  shows "P (snd (handleAudioInput k d t w))"
  using P by (simp add: handleAudioInput_def send moda split: option.splits)

lemma handleClientMessage_inv:
  assumes sendc: "\<And>i f w. P w \<Longrightarrow> P (snd (client_send i f w))"
    and sendg: "\<And>i f w. P w \<Longrightarrow> P (snd (gemini_send i f w))"
    and P: "P w"
  shows "P (snd (handleClientMessage k m w))"
  using P by (simp add: handleClientMessage_def sendc sendg split: option.splits sum.splits)

lemma client_on_message_inv:
  assumes sendc: "\<And>i f w. P w \<Longrightarrow> P (snd (client_send i f w))"
    and sendg: "\<And>i f w. P w \<Longrightarrow> P (snd (gemini_send i f w))"
    and moda: "\<And>w. P w \<Longrightarrow> P (modify k (\<lambda>c. c\<lparr>lastActivity := t\<rparr>) w)"
    and P: "P w"
  shows "P (snd (client_on_message k ws dat t w))"
proof -
  have reply: "\<And>r :: js_error option \<times> world. P (snd r) \<Longrightarrow>
      P (snd (case r of (None, w') \<Rightarrow> (None, w')
          | (Some err, w') \<Rightarrow> client_send ws (error_event ''Failed to process message'') w'))"
  proof -
    fix r :: "js_error option \<times> world"
    assume "P (snd r)"
    then show "P (snd (case r of (None, w') \<Rightarrow> (None, w')
          | (Some err, w') \<Rightarrow> client_send ws (error_event ''Failed to process message'') w'))"
      by (cases r; cases "fst r") (simp_all add: sendc)
  qed
  show ?thesis
  proof (cases dat)
    case (Buffer d)
    then show ?thesis
      unfolding client_on_message_def
      using reply [OF handleAudioInput_inv [of P k t w d, OF sendg moda P]] by simp
  next
    case (Str p)
    show ?thesis
    proof (cases p)
      case None
      with Str P show ?thesis
        by (simp add: client_on_message_def sendc)
    next
      case (Some m)
      from reply [OF handleClientMessage_inv [of P w k m, OF sendc sendg P]] Str Some show ?thesis
        unfolding client_on_message_def by simp
    qed
  qed
qed

text \<open>
  A property of the world that the sends, the field assignments, the teardown and the
  socket state changes keep is kept by every event, once it is checked for the events that
  do more: a new connection, and the closing or failing of a client socket.
\<close>

lemma step_inv:
  assumes sendc: "\<And>i f w. P w \<Longrightarrow> P (snd (client_send i f w))"
    and sendg: "\<And>i f w. P w \<Longrightarrow> P (snd (gemini_send i f w))"
    and modg: "\<And>k w. P w \<Longrightarrow> P (modify k (\<lambda>c. c\<lparr>isGenerating := False\<rparr>) w)"
    and moda: "\<And>k t w. P w \<Longrightarrow> P (modify k (\<lambda>c. c\<lparr>lastActivity := t\<rparr>) w)"
    and modc: "\<And>k m w. ev = GeminiMessage k (Some m) \<Longrightarrow> setupComplete m \<Longrightarrow> P w
                 \<Longrightarrow> P (modify k (\<lambda>c. c\<lparr>connected := True\<rparr>) w)"
    and clean: "\<And>k w. P w \<Longrightarrow> P (cleanupConnection k w)"
    and gst: "\<And>g st w. P w \<Longrightarrow> P (set_gemini_state g st w)"
    and cst: "\<And>k ws. ev = ClientClose k ws \<Longrightarrow> P (set_client_state ws CLOSED w)"
    and cer: "\<And>k ws. ev = ClientError k ws \<Longrightarrow> P (set_client_state ws CLOSING w)"
    and conn: "\<And>t r c t'. ev = Connection t r c t' \<Longrightarrow> P (snd (step e ev w))"
    and P: "P w"
  shows "P (snd (step e ev w))"
proof (cases ev)
  case (Connection t r c t')
  then show ?thesis by (rule conn)
next
  case (ClientMessage k ws dat now)
  with client_on_message_inv [of P k now w ws dat, OF sendc sendg moda P] show ?thesis
    by simp
next
  case (ClientClose k ws)
  with clean [OF cst [OF ClientClose]] show ?thesis by simp
next
  case (ClientError k ws)
  with clean [OF cer [OF ClientError]] show ?thesis by simp
next
  case (GeminiOpen k g)
  with P sendg [OF gst [OF P]] show ?thesis
    by (simp add: gemini_on_open_def)
next
  case (GeminiMessage k p)
  show ?thesis
  proof (cases p)
    case None
    with GeminiMessage P show ?thesis by (simp add: gemini_on_message_def)
  next
    case (Some m)
    have "P (snd (handleGeminiMessage k m w))"
    proof (rule handleGeminiMessage_inv [of P])
      show "\<And>i f w. P w \<Longrightarrow> P (snd (client_send i f w))" by (rule sendc)
      show "\<And>w. P w \<Longrightarrow> P (modify k (\<lambda>c. c\<lparr>isGenerating := False\<rparr>) w)" by (rule modg)
      show "\<And>w. setupComplete m \<Longrightarrow> P w \<Longrightarrow> P (modify k (\<lambda>c. c\<lparr>connected := True\<rparr>) w)"
        using modc [of k m] GeminiMessage Some by simp
      show "P w" by (rule P)
    qed
    with GeminiMessage Some show ?thesis by (simp add: gemini_on_message_def)
  qed
next
  case (GeminiClose k g)
  have "P (snd (gemini_on_close k (set_gemini_state g CLOSED w)))"
    using gst [OF P, of g CLOSED] by (simp add: gemini_on_close_def sendc split: option.splits)
  with GeminiClose show ?thesis by simp
next
  case (GeminiError k g)
  have "P (snd (gemini_on_error k (set_gemini_state g CLOSING w)))"
    using gst [OF P, of g CLOSING] by (simp add: gemini_on_error_def sendc split: option.splits)
  with GeminiError show ?thesis by simp
next
  case (ReaperTick now)
  with fold_cleanup_inv [of P w "\<lambda>c. now - lastActivity c > timeout" "activeConnections w", OF clean P]
  show ?thesis by (simp add: reaper_def)
next
  case Shutdown
  with fold_cleanup_inv [of P w "\<lambda>c. True" "activeConnections w", OF clean P]
  show ?thesis by (simp add: shutdown_def)
qed

lemma modify_entry:
  assumes "\<And>c. I (Some c) \<Longrightarrow> I (Some (f c))" and "I (map_of (activeConnections w) k)"
  shows "I (map_of (activeConnections (modify k' f w)) k)"
  using assms by (cases "map_of (activeConnections w) k'") (auto simp add: modify_fields)

text \<open>The same for a property of the record stored under one identifier.\<close>

lemma step_entry:
  assumes del: "I None"
    and gen: "\<And>c. I (Some c) \<Longrightarrow> I (Some (c\<lparr>isGenerating := False\<rparr>))"
    and act: "\<And>c t. I (Some c) \<Longrightarrow> I (Some (c\<lparr>lastActivity := t\<rparr>))"
    and con: "\<And>c m. ev = GeminiMessage k (Some m) \<Longrightarrow> setupComplete m \<Longrightarrow> I (Some c)
                \<Longrightarrow> I (Some (c\<lparr>connected := True\<rparr>))"
    and reg: "\<And>t r t' cw gw. ev = Connection t r Constructed t' \<Longrightarrow> truthy (GEMINI_API_KEY e)
                \<Longrightarrow> generateConnectionId t r = k
                \<Longrightarrow> I (Some \<lparr>clientWs = cw, geminiWs = gw, connected = False,
                             lastActivity = t', isGenerating = False\<rparr>)"
    and I: "I (map_of (activeConnections w) k)"
  shows "I (map_of (activeConnections (snd (step e ev w))) k)"
proof (rule step_inv [where P = "\<lambda>w. I (map_of (activeConnections w) k)"])
  show "\<And>i f w. I (map_of (activeConnections w) k)
          \<Longrightarrow> I (map_of (activeConnections (snd (client_send i f w))) k)"
    by (simp add: client_send_fields)
  show "\<And>i f w. I (map_of (activeConnections w) k)
          \<Longrightarrow> I (map_of (activeConnections (snd (gemini_send i f w))) k)"
    by (simp add: gemini_send_fields)
  show "\<And>k' w. I (map_of (activeConnections w) k)
          \<Longrightarrow> I (map_of (activeConnections (modify k' (\<lambda>c. c\<lparr>isGenerating := False\<rparr>) w)) k)"
    using gen by (rule modify_entry)
  show "\<And>k' t w. I (map_of (activeConnections w) k)
          \<Longrightarrow> I (map_of (activeConnections (modify k' (\<lambda>c. c\<lparr>lastActivity := t\<rparr>) w)) k)"
    using act by (rule modify_entry)
  show "\<And>k' m w. ev = GeminiMessage k' (Some m) \<Longrightarrow> setupComplete m
          \<Longrightarrow> I (map_of (activeConnections w) k)
          \<Longrightarrow> I (map_of (activeConnections (modify k' (\<lambda>c. c\<lparr>connected := True\<rparr>) w)) k)"
  proof -
    fix k' m and w :: world
    assume ev: "ev = GeminiMessage k' (Some m)" and m: "setupComplete m"
      and Iw: "I (map_of (activeConnections w) k)"
    show "I (map_of (activeConnections (modify k' (\<lambda>c. c\<lparr>connected := True\<rparr>) w)) k)"
    proof (cases "k' = k")
      case True
      with con [of m] ev m have "\<And>c. I (Some c) \<Longrightarrow> I (Some (c\<lparr>connected := True\<rparr>))" by simp
      then show ?thesis using Iw by (rule modify_entry)
    next
      case False
      with Iw show ?thesis by (simp add: modify_fields)
    qed
  qed
  show "\<And>k' w. I (map_of (activeConnections w) k)
          \<Longrightarrow> I (map_of (activeConnections (cleanupConnection k' w)) k)"
    using del by (simp add: cleanupConnection_registry)
  show "\<And>g st w. I (map_of (activeConnections w) k)
          \<Longrightarrow> I (map_of (activeConnections (set_gemini_state g st w)) k)"
    by (simp add: set_gemini_state_def)
  show "\<And>k' ws. ev = ClientClose k' ws
          \<Longrightarrow> I (map_of (activeConnections (set_client_state ws CLOSED w)) k)"
    using I by (simp add: set_client_state_def)
  show "\<And>k' ws. ev = ClientError k' ws
          \<Longrightarrow> I (map_of (activeConnections (set_client_state ws CLOSING w)) k)"
    using I by (simp add: set_client_state_def)
  show "\<And>t r c t'. ev = Connection t r c t'
          \<Longrightarrow> I (map_of (activeConnections (snd (step e ev w))) k)"
  proof -
    fix t r c t'
    assume ev: "ev = Connection t r c t'"
    show "I (map_of (activeConnections (snd (step e ev w))) k)"
    proof (cases "truthy (GEMINI_API_KEY e) \<and> c = Constructed \<and> generateConnectionId t r = k")
      case True
      with reg [of t r t' "nextClient w" "nextGemini w"] ev
      have "I (Some \<lparr>clientWs = nextClient w, geminiWs = nextGemini w, connected = False,
                     lastActivity = t', isGenerating = False\<rparr>)"
        by simp
      with True show ?thesis
        unfolding ev by (simp add: Connection_registry del: step.simps)
    next
      case False
      with I show ?thesis
        unfolding ev by (auto simp add: Connection_registry simp del: step.simps)
    qed
  qed
  show "I (map_of (activeConnections w) k)" by (rule I)
qed

lemma step_client_socket:
  assumes "ws < nextClient w" and "\<forall>k. ev \<noteq> ClientClose k ws \<and> ev \<noteq> ClientError k ws"
    and "readyState (clientSockets w ws) = st"
  shows "readyState (clientSockets (snd (step e ev w)) ws) = st \<and> ws < nextClient (snd (step e ev w))"
proof (rule step_inv [where P = "\<lambda>w. readyState (clientSockets w ws) = st \<and> ws < nextClient w"])
  show "\<And>t r c t'. ev = Connection t r c t' \<Longrightarrow>
      readyState (clientSockets (snd (step e ev w)) ws) = st \<and> ws < nextClient (snd (step e ev w))"
  proof -
    fix t r c t'
    assume ev: "ev = Connection t r c t'"
    show "readyState (clientSockets (snd (step e ev w)) ws) = st \<and> ws < nextClient (snd (step e ev w))"
      unfolding ev using assms(1,3)
      by (cases c) (simp_all add: initializeGeminiSession_def Let_def client_send_fields)
  qed
  show "\<And>k ws'. ev = ClientClose k ws' \<Longrightarrow>
      readyState (clientSockets (set_client_state ws' CLOSED w) ws) = st
      \<and> ws < nextClient (set_client_state ws' CLOSED w)"
    using assms by (auto simp add: set_client_state_def)
  show "\<And>k ws'. ev = ClientError k ws' \<Longrightarrow>
      readyState (clientSockets (set_client_state ws' CLOSING w) ws) = st
      \<and> ws < nextClient (set_client_state ws' CLOSING w)"
    using assms by (auto simp add: set_client_state_def)
qed (use assms in \<open>simp_all add: client_send_fields gemini_send_fields modify_fields
      cleanupConnection_clients set_gemini_state_def\<close>)

lemma run_client_socket:
  assumes "ws < nextClient w"
    and "\<forall>k. ClientClose k ws \<notin> set evs \<and> ClientError k ws \<notin> set evs"
    and "readyState (clientSockets w ws) = st"
  shows "readyState (clientSockets (run e evs w) ws) = st"
  using assms
proof (induction evs arbitrary: w)
  case Nil
  then show ?case by simp
next
  case (Cons ev evs)
  from Cons.prems have "readyState (clientSockets (snd (step e ev w)) ws) = st
      \<and> ws < nextClient (snd (step e ev w))"
    by (intro step_client_socket) auto
  with Cons.IH [of "snd (step e ev w)"] Cons.prems(2) show ?case by simp
qed

lemma missing_key_entry_absent:
  assumes "\<not> truthy (GEMINI_API_KEY e)" and "map_of (activeConnections w) k = None"
  shows "map_of (activeConnections (run e evs w)) k = None"
  using assms(2)
proof (induction evs arbitrary: w)
  case Nil
  then show ?case by simp
next
  case (Cons ev evs)
  have "map_of (activeConnections (snd (step e ev w))) k = None"
    by (rule step_entry [where I = "\<lambda>entry. entry = None"]) (use assms(1) Cons.prems in simp_all)
  with Cons.IH show ?case by simp
qed


lemma reaper_clients: "clientSockets (reaper now w) = clientSockets w"
  unfolding reaper_def
  by (rule fold_cleanup_inv [where P = "\<lambda>w'. clientSockets w' = clientSockets w"])
     (simp_all add: cleanupConnection_clients)


section \<open>The texts of the events\<close>

text \<open>What the relay writes to a socket, letter by letter.\<close>

lemma event_texts:
  \<open>error_event ''Server is missing Gemini API key. Ask the administrator to set GEMINI_API_KEY.''
     = Text ''{"type":"error","message":"Server is missing Gemini API key. Ask the administrator to set GEMINI_API_KEY."}''\<close>
  \<open>error_event ''Failed to process message''
     = Text ''{"type":"error","message":"Failed to process message"}''\<close>
  \<open>type_event ''pong'' = Text ''{"type":"pong"}''\<close>
  \<open>type_event ''generation_complete'' = Text ''{"type":"generation_complete"}''\<close>
  \<open>type_event ''interrupted'' = Text ''{"type":"interrupted"}''\<close>
  \<open>type_event ''turn_complete'' = Text ''{"type":"turn_complete"}''\<close>
  by code_simp+

section \<open>The example worlds\<close>

lemma env_with_key_truthy: "truthy (GEMINI_API_KEY env_with_key)"
  by (simp add: env_with_key_def GEMINI_API_KEY_def js_or_def truthy_def)

lemma env_without_key_falsy: "\<not> truthy (GEMINI_API_KEY env_without_key)"
  by (simp add: env_without_key_def GEMINI_API_KEY_def js_or_def truthy_def)

lemma connect_event_id: "generateConnectionId 1000 [0xde, 0xad, 0xbe, 0xef] = ''conn_1000_deadbeef''"
  by code_simp

lemma world_registered_entry:
  "map_of (activeConnections world_registered) ''conn_1000_deadbeef'' =
     Some \<lparr>clientWs = 0, geminiWs = 0, connected = False, lastActivity = 1001, isGenerating = False\<rparr>"
  by code_simp

lemma world_registered_client: "readyState (clientSockets world_registered 0) = OPEN"
  by code_simp

lemma world_ready_entry:
  "map_of (activeConnections world_ready) ''conn_1000_deadbeef'' =
     Some \<lparr>clientWs = 0, geminiWs = 0, connected = True, lastActivity = 1001, isGenerating = False\<rparr>"
  by code_simp

lemma world_ready_client: "readyState (clientSockets world_ready 0) = OPEN"
  by code_simp

lemma world_ready_gemini: "readyState (geminiSockets world_ready 0) = OPEN"
  by code_simp

lemma world_registered_setup:
  "map_of (activeConnections
     (snd (step env_with_key (GeminiMessage ''conn_1000_deadbeef'' (Some setup_complete_message))
             world_registered))) ''conn_1000_deadbeef''
   = Some \<lparr>clientWs = 0, geminiWs = 0, connected = True, lastActivity = 1001, isGenerating = False\<rparr>"
  by code_simp

lemma world_ready_later:
  "map_of (activeConnections
     (run env_with_key
        [ClientMessage ''conn_1000_deadbeef'' 0 (Buffer [1, 2, 3]) 2000,
         GeminiMessage ''conn_1000_deadbeef'' (Some (signal True False False)),
         ReaperTick 3000]
        world_ready)) ''conn_1000_deadbeef''
   = Some \<lparr>clientWs = 0, geminiWs = 0, connected = True, lastActivity = 2000, isGenerating = False\<rparr>"
  by code_simp

section \<open>Audio frames before the upstream is ready\<close>

text \<open>
  \<^bold>\<open>C1.\<close> For a connection with a record in the registry, a binary frame that arrives
  while the record's \<open>connected\<close> flag is false, or while the upstream socket is not open,
  is dropped: \<open>handleAudioInput\<close> returns without an exception and leaves the whole world as
  it was, so nothing is handed to the upstream socket and nothing is kept of the frame; the
  \<^verbatim>\<open>message\<close> callback around it sends no reply either, and whatever events follow run as
  if the frame had not arrived.
\<close>

theorem audio_frame_dropped_unless_ready_and_open:
  assumes "map_of (activeConnections w) connectionId = Some connection"
    and "\<not> connected connection \<or> readyState (geminiSockets w (geminiWs connection)) \<noteq> OPEN"
  shows "handleAudioInput connectionId audioData now w = (None, w)
       \<and> step e (ClientMessage connectionId ws (Buffer audioData) now) w = (None, w)
       \<and> run e (ClientMessage connectionId ws (Buffer audioData) now # evs) w = run e evs w"
  using assms by (auto simp add: handleAudioInput_def client_on_message_def)

theorem audio_frame_dropped_witness:
  "map_of (activeConnections world_registered) ''conn_1000_deadbeef'' =
     Some \<lparr>clientWs = 0, geminiWs = 0, connected = False, lastActivity = 1001, isGenerating = False\<rparr>
   \<and> handleAudioInput ''conn_1000_deadbeef'' [1, 2, 3] 2000 world_registered = (None, world_registered)
   \<and> step env_with_key (ClientMessage ''conn_1000_deadbeef'' 0 (Buffer [1, 2, 3]) 2000) world_registered
        = (None, world_registered)
   \<and> run env_with_key
        [ClientMessage ''conn_1000_deadbeef'' 0 (Buffer [1, 2, 3]) 2000,
         GeminiOpen ''conn_1000_deadbeef'' 0,
         GeminiMessage ''conn_1000_deadbeef'' (Some setup_complete_message)] world_registered
       = run env_with_key
        [GeminiOpen ''conn_1000_deadbeef'' 0,
         GeminiMessage ''conn_1000_deadbeef'' (Some setup_complete_message)] world_registered"
  using audio_frame_dropped_unless_ready_and_open
          [OF world_registered_entry, of "[1, 2, 3]" 2000 env_with_key 0
              "[GeminiOpen ''conn_1000_deadbeef'' 0,
                GeminiMessage ''conn_1000_deadbeef'' (Some setup_complete_message)]"]
        world_registered_entry
  by (simp del: step.simps run.simps)

section \<open>The ready flag\<close>

lemma ready_kept_step:
  assumes "\<not> registers k ev"
    and "\<forall>c. map_of (activeConnections w) k = Some c \<longrightarrow> connected c"
  shows "\<forall>c. map_of (activeConnections (snd (step e ev w))) k = Some c \<longrightarrow> connected c"
proof (rule step_entry [where I = "\<lambda>entry. \<forall>c. entry = Some c \<longrightarrow> connected c"])
  show "\<And>t r t' cw gw. ev = Connection t r Constructed t' \<Longrightarrow> truthy (GEMINI_API_KEY e)
      \<Longrightarrow> generateConnectionId t r = k
      \<Longrightarrow> \<forall>c. Some \<lparr>clientWs = cw, geminiWs = gw, connected = False,
                      lastActivity = t', isGenerating = False\<rparr> = Some c \<longrightarrow> connected c"
    using assms(1) by (simp add: registers_def)
qed (use assms(2) in simp_all)

lemma ready_kept_run:
  assumes "\<forall>ev\<in>set evs. \<not> registers k ev"
    and "\<forall>c. map_of (activeConnections w) k = Some c \<longrightarrow> connected c"
  shows "\<forall>c. map_of (activeConnections (run e evs w)) k = Some c \<longrightarrow> connected c"
  using assms
proof (induction evs arbitrary: w)
  case Nil
  then show ?case by simp
next
  case (Cons ev evs)
  from Cons.prems have "\<forall>c. map_of (activeConnections (snd (step e ev w))) k = Some c \<longrightarrow> connected c"
    by (intro ready_kept_step) simp_all
  with Cons.IH [of "snd (step e ev w)"] Cons.prems(1) show ?case by simp
qed

lemma ready_only_by_setupComplete:
  assumes "\<not> (\<exists>m. ev = GeminiMessage k (Some m) \<and> setupComplete m)"
    and "\<forall>c. map_of (activeConnections w) k = Some c \<longrightarrow> \<not> connected c"
  shows "\<forall>c. map_of (activeConnections (snd (step e ev w))) k = Some c \<longrightarrow> \<not> connected c"
proof (rule step_entry [where I = "\<lambda>entry. \<forall>c. entry = Some c \<longrightarrow> \<not> connected c"])
  show "\<And>c m. ev = GeminiMessage k (Some m) \<Longrightarrow> setupComplete m
      \<Longrightarrow> \<forall>c'. Some c = Some c' \<longrightarrow> \<not> connected c'
      \<Longrightarrow> \<forall>c'. Some (c\<lparr>connected := True\<rparr>) = Some c' \<longrightarrow> \<not> connected c'"
    using assms(1) by simp
qed (use assms(2) in simp_all)

lemma ready_on_setupComplete:
  assumes rec: "map_of (activeConnections w) k = Some c"
    and opn: "readyState (clientSockets w (clientWs c)) = OPEN"
    and m: "setupComplete m"
  shows "map_option connected (map_of (activeConnections (snd (handleGeminiMessage k m w))) k) = Some True"
proof (rule handleGeminiMessage_inv2
    [where Q = "\<lambda>w. map_option connected (map_of (activeConnections w) k) = Some True", OF rec opn])
  show "\<And>i f w. map_option connected (map_of (activeConnections w) k) = Some True \<Longrightarrow>
      map_option connected (map_of (activeConnections (snd (client_send i f w))) k) = Some True"
    by (simp add: client_send_fields)
  show "\<And>w. map_option connected (map_of (activeConnections w) k) = Some True \<Longrightarrow>
      map_option connected (map_of (activeConnections (modify k (\<lambda>c. c\<lparr>isGenerating := False\<rparr>) w)) k)
        = Some True"
    by (auto simp add: modify_fields)
  show "map_option connected (map_of (activeConnections
          (if setupComplete m then modify k (\<lambda>c. c\<lparr>connected := True\<rparr>) w else w)) k) = Some True"
    using rec m by (simp add: modify_fields)
qed

text \<open>
  \<^bold>\<open>C2.\<close> The \<open>connected\<close> flag of a record is false in the world right after the record is
  stored. In one event it goes from false to true only when the event is an upstream message
  for this identifier that carries \<open>setupComplete\<close>, and such a message does set it when the
  client socket is open. Once true it stays true in every later world in which the record
  is still there, so the change happens at most once; a later connection that is given the
  same identifier stores a new record and is not an event of the old one.
\<close>

theorem ready_flag_lifecycle:
  "(truthy (GEMINI_API_KEY e) \<longrightarrow>
      map_of (activeConnections (snd (step e (Connection t r Constructed t') w)))
        (generateConnectionId t r)
      = Some \<lparr>clientWs = nextClient w, geminiWs = nextGemini w, connected = False,
              lastActivity = t', isGenerating = False\<rparr>)
   \<and> (\<forall>c c'. map_of (activeConnections w) k = Some c \<and> \<not> connected c
          \<and> map_of (activeConnections (snd (step e ev w))) k = Some c' \<and> connected c'
        \<longrightarrow> (\<exists>m. ev = GeminiMessage k (Some m) \<and> setupComplete m))
   \<and> (\<forall>c m. map_of (activeConnections w) k = Some c
          \<and> readyState (clientSockets w (clientWs c)) = OPEN \<and> setupComplete m
        \<longrightarrow> map_option connected
              (map_of (activeConnections (snd (step e (GeminiMessage k (Some m)) w))) k) = Some True)
   \<and> (\<forall>c c'. map_of (activeConnections w) k = Some c \<and> connected c
          \<and> (\<forall>ev\<in>set evs. \<not> registers k ev)
          \<and> map_of (activeConnections (run e evs w)) k = Some c'
        \<longrightarrow> connected c')"
proof (intro conjI allI impI)
  assume "truthy (GEMINI_API_KEY e)"
  then show "map_of (activeConnections (snd (step e (Connection t r Constructed t') w)))
        (generateConnectionId t r)
      = Some \<lparr>clientWs = nextClient w, geminiWs = nextGemini w, connected = False,
              lastActivity = t', isGenerating = False\<rparr>"
    by (simp add: Connection_registry del: step.simps)
next
  fix c c'
  assume a: "map_of (activeConnections w) k = Some c \<and> \<not> connected c
          \<and> map_of (activeConnections (snd (step e ev w))) k = Some c' \<and> connected c'"
  show "\<exists>m. ev = GeminiMessage k (Some m) \<and> setupComplete m"
  proof (rule ccontr)
    assume "\<not> (\<exists>m. ev = GeminiMessage k (Some m) \<and> setupComplete m)"
    moreover from a have "\<forall>c. map_of (activeConnections w) k = Some c \<longrightarrow> \<not> connected c"
      by simp
    ultimately have "\<forall>c. map_of (activeConnections (snd (step e ev w))) k = Some c \<longrightarrow> \<not> connected c"
      by (rule ready_only_by_setupComplete)
    with a show False by simp
  qed
next
  fix c and m :: gemini_message
  assume "map_of (activeConnections w) k = Some c
          \<and> readyState (clientSockets w (clientWs c)) = OPEN \<and> setupComplete m"
  then show "map_option connected
              (map_of (activeConnections (snd (step e (GeminiMessage k (Some m)) w))) k) = Some True"
    using ready_on_setupComplete [of w k c m] by (simp add: gemini_on_message_def)
next
  fix c c'
  assume a: "map_of (activeConnections w) k = Some c \<and> connected c
          \<and> (\<forall>ev\<in>set evs. \<not> registers k ev)
          \<and> map_of (activeConnections (run e evs w)) k = Some c'"
  then have "\<forall>c. map_of (activeConnections (run e evs w)) k = Some c \<longrightarrow> connected c"
    by (intro ready_kept_run) simp_all
  with a show "connected c'" by simp
qed

theorem ready_flag_lifecycle_witness:
  "map_of (activeConnections (snd (step env_with_key connect_event initial_world))) ''conn_1000_deadbeef''
     = Some \<lparr>clientWs = 0, geminiWs = 0, connected = False, lastActivity = 1001, isGenerating = False\<rparr>
   \<and> (\<exists>m. GeminiMessage ''conn_1000_deadbeef'' (Some setup_complete_message)
             = GeminiMessage ''conn_1000_deadbeef'' (Some m) \<and> setupComplete m)
   \<and> map_option connected (map_of (activeConnections
        (snd (step env_with_key (GeminiMessage ''conn_1000_deadbeef'' (Some setup_complete_message))
                world_registered))) ''conn_1000_deadbeef'') = Some True
   \<and> connected \<lparr>clientWs = 0, geminiWs = 0, connected = True, lastActivity = 2000, isGenerating = False\<rparr>"
proof -
  note first = ready_flag_lifecycle
      [of env_with_key 1000 "[0xde, 0xad, 0xbe, 0xef]" 1001 initial_world "''conn_1000_deadbeef''"
          "GeminiMessage ''conn_1000_deadbeef'' (Some setup_complete_message)" "[]"]
  note second = ready_flag_lifecycle
      [of env_with_key 1000 "[0xde, 0xad, 0xbe, 0xef]" 1001 world_registered "''conn_1000_deadbeef''"
          "GeminiMessage ''conn_1000_deadbeef'' (Some setup_complete_message)" "[]"]
  note third = ready_flag_lifecycle
      [of env_with_key 1000 "[0xde, 0xad, 0xbe, 0xef]" 1001 world_ready "''conn_1000_deadbeef''"
          "ReaperTick 3000"
          "[ClientMessage ''conn_1000_deadbeef'' 0 (Buffer [1, 2, 3]) 2000,
            GeminiMessage ''conn_1000_deadbeef'' (Some (signal True False False)),
            ReaperTick 3000]"]
  have a: "map_of (activeConnections (snd (step env_with_key connect_event initial_world)))
             ''conn_1000_deadbeef''
     = Some \<lparr>clientWs = 0, geminiWs = 0, connected = False, lastActivity = 1001, isGenerating = False\<rparr>"
    using first env_with_key_truthy connect_event_id
    by (simp add: connect_event_def initial_world_def del: step.simps)
  have b: "\<exists>m. GeminiMessage ''conn_1000_deadbeef'' (Some setup_complete_message)
             = GeminiMessage ''conn_1000_deadbeef'' (Some m) \<and> setupComplete m"
    using second world_registered_entry world_registered_setup
    by (simp del: step.simps)
  have c: "map_option connected (map_of (activeConnections
        (snd (step env_with_key (GeminiMessage ''conn_1000_deadbeef'' (Some setup_complete_message))
                world_registered))) ''conn_1000_deadbeef'') = Some True"
    using second world_registered_entry world_registered_client
    by (simp add: setup_complete_message_def del: step.simps)
  have d: "connected \<lparr>clientWs = 0, geminiWs = 0, connected = True, lastActivity = 2000,
                       isGenerating = False\<rparr>"
    using third world_ready_entry world_ready_later
    by (simp add: registers_def del: step.simps)
  from a b c d show ?thesis by blast
qed

section \<open>The activity timestamp\<close>

text \<open>
  \<^bold>\<open>C3\<close>, as stated, asks that every inbound binary frame updates \<open>lastActivity\<close>, also
  when the frame is dropped. In \<open>handleAudioInput\<close> the guard returns before the assignment:
  the record registered at time 1001 and not yet ready still has \<open>lastActivity = 1001\<close> after
  a frame received at time 2000.
\<close>

theorem audio_frame_activity_counterexample:
  "map_option lastActivity
     (map_of (activeConnections
        (snd (step env_with_key (ClientMessage ''conn_1000_deadbeef'' 0 (Buffer [1, 2, 3]) 2000)
                world_registered))) ''conn_1000_deadbeef'') = Some 1001
   \<and> map_option lastActivity
     (map_of (activeConnections
        (snd (step env_with_key (ClientMessage ''conn_1000_deadbeef'' 0 (Buffer [1, 2, 3]) 2000)
                world_registered))) ''conn_1000_deadbeef'') \<noteq> Some 2000"
  by code_simp

text \<open>
  \<^bold>\<open>C3\<close>, amended. A binary frame sets \<open>lastActivity\<close> to the time of receipt when it is
  forwarded, that is when the record is ready and the upstream socket is open; a frame that
  is dropped leaves the record, \<open>lastActivity\<close> included, as it was.
\<close>

theorem audio_frame_activity_only_when_forwarded:
  assumes "map_of (activeConnections w) connectionId = Some connection"
  shows "(connected connection \<and> readyState (geminiSockets w (geminiWs connection)) = OPEN \<longrightarrow>
            map_of (activeConnections (snd (handleAudioInput connectionId audioData now w))) connectionId
              = Some (connection\<lparr>lastActivity := now\<rparr>))
       \<and> (\<not> (connected connection \<and> readyState (geminiSockets w (geminiWs connection)) = OPEN) \<longrightarrow>
            map_of (activeConnections (snd (handleAudioInput connectionId audioData now w))) connectionId
              = Some connection)"
  using assms by (auto simp add: handleAudioInput_def gemini_send_fields modify_fields)

theorem audio_frame_activity_witness:
  "map_of (activeConnections
      (snd (handleAudioInput ''conn_1000_deadbeef'' [1, 2, 3] 2000 world_ready))) ''conn_1000_deadbeef''
     = Some \<lparr>clientWs = 0, geminiWs = 0, connected = True, lastActivity = 2000, isGenerating = False\<rparr>
   \<and> map_of (activeConnections
      (snd (handleAudioInput ''conn_1000_deadbeef'' [1, 2, 3] 2000 world_registered))) ''conn_1000_deadbeef''
     = Some \<lparr>clientWs = 0, geminiWs = 0, connected = False, lastActivity = 1001, isGenerating = False\<rparr>"
  using audio_frame_activity_only_when_forwarded [OF world_ready_entry, of "[1, 2, 3]" 2000]
        audio_frame_activity_only_when_forwarded [OF world_registered_entry, of "[1, 2, 3]" 2000]
        world_ready_gemini
  by simp

section \<open>No credential configured\<close>

text \<open>
  \<^bold>\<open>C4\<close>, as stated, has the connection stay open until the client or the idle reaper
  closes it. The reaper does not: it walks the registry, where a connection refused for want
  of a credential has no record, and it closes upstream sockets only. After a connection at
  time 1000 and a sweep at time 1000000 the registry is empty and the client socket is open.
\<close>

theorem missing_credential_reaper_counterexample:
  "\<not> truthy (GEMINI_API_KEY env_without_key)
   \<and> activeConnections (run env_without_key [connect_event] initial_world) = []
   \<and> readyState (clientSockets
        (run env_without_key [connect_event, ReaperTick 1000000] initial_world) 0) = OPEN"
  by code_simp

text \<open>
  \<^bold>\<open>C4\<close>, amended. With no credential, the \<^verbatim>\<open>connection\<close> callback sends one event to the
  new client, the error event with the text about the missing key, and does nothing else:
  the upstream sockets and their allocator are untouched, no record is stored, the client
  socket is open. The same holds of \<open>initializeGeminiSession\<close> on any open client socket.
  From then on the socket stays open through every sequence of events in which the client
  side neither closes that socket nor fails on it, and through a sweep of the reaper after
  it, whatever the time: the reaper never closes it. The connection is of no use: as long as
  the identifier was free, no record is ever stored under it, and no message received on
  the connection hands anything to an upstream socket.
\<close>

theorem missing_credential_session:
  assumes nokey: \<open>\<not> truthy (GEMINI_API_KEY e)\<close>
  shows \<open>step e (Connection t r c t') w =
           (None, w\<lparr>clientSockets := (clientSockets w)
                      (nextClient w := \<lparr>readyState = OPEN,
                         sent = [Text ''{"type":"error","message":"Server is missing Gemini API key. Ask the administrator to set GEMINI_API_KEY."}''],
                         closeCalls = 0\<rparr>),
                    nextClient := Suc (nextClient w)\<rparr>)
       \<and> (readyState (clientSockets w ws) = OPEN \<longrightarrow>
            initializeGeminiSession e k ws c now w =
              (None, w\<lparr>clientSockets := (clientSockets w)
                 (ws := (clientSockets w ws)
                    \<lparr>sent := sent (clientSockets w ws) @
                       [Text ''{"type":"error","message":"Server is missing Gemini API key. Ask the administrator to set GEMINI_API_KEY."}'']\<rparr>)\<rparr>))
       \<and> ((\<forall>k'. ClientClose k' (nextClient w) \<notin> set evs
                 \<and> ClientError k' (nextClient w) \<notin> set evs) \<longrightarrow>
            readyState (clientSockets (run e evs (snd (step e (Connection t r c t') w))) (nextClient w))
              = OPEN
            \<and> readyState (clientSockets
                 (reaper sweep (run e evs (snd (step e (Connection t r c t') w)))) (nextClient w))
              = OPEN)
       \<and> (map_of (activeConnections w) (generateConnectionId t r) = None \<longrightarrow>
            map_of (activeConnections (run e evs (snd (step e (Connection t r c t') w))))
              (generateConnectionId t r) = None
            \<and> (\<forall>ws' d now'.
                 geminiSockets (snd (step e (ClientMessage (generateConnectionId t r) ws' d now')
                                     (run e evs (snd (step e (Connection t r c t') w)))))
                 = geminiSockets (run e evs (snd (step e (Connection t r c t') w)))))\<close>
proof -
  let ?msg = "error_event ''Server is missing Gemini API key. Ask the administrator to set GEMINI_API_KEY.''"
  define w1 where "w1 = snd (step e (Connection t r c t') w)"
  have init: "readyState (clientSockets w ws) = OPEN \<longrightarrow>
      initializeGeminiSession e k ws c now w =
        (None, w\<lparr>clientSockets := (clientSockets w)
           (ws := (clientSockets w ws)\<lparr>sent := sent (clientSockets w ws) @ [?msg]\<rparr>)\<rparr>)"
    using nokey by (simp add: initializeGeminiSession_def client_send_OPEN)
  have conn: "step e (Connection t r c t') w =
           (None, w\<lparr>clientSockets := (clientSockets w)
                      (nextClient w := \<lparr>readyState = OPEN, sent = [?msg], closeCalls = 0\<rparr>),
                    nextClient := Suc (nextClient w)\<rparr>)"
    using nokey
    by (simp add: Let_def initializeGeminiSession_def client_send_OPEN new_socket_def)
  have w1: "w1 = w\<lparr>clientSockets := (clientSockets w)
                      (nextClient w := \<lparr>readyState = OPEN, sent = [?msg], closeCalls = 0\<rparr>),
                    nextClient := Suc (nextClient w)\<rparr>"
    unfolding w1_def conn by simp
  have stays: "(\<forall>k'. ClientClose k' (nextClient w) \<notin> set evs
                 \<and> ClientError k' (nextClient w) \<notin> set evs) \<longrightarrow>
      readyState (clientSockets (run e evs w1) (nextClient w)) = OPEN
      \<and> readyState (clientSockets (reaper sweep (run e evs w1)) (nextClient w)) = OPEN"
  proof
    assume "\<forall>k'. ClientClose k' (nextClient w) \<notin> set evs
                 \<and> ClientError k' (nextClient w) \<notin> set evs"
    then have "readyState (clientSockets (run e evs w1) (nextClient w)) = OPEN"
      by (intro run_client_socket) (simp_all add: w1)
    then show "readyState (clientSockets (run e evs w1) (nextClient w)) = OPEN
      \<and> readyState (clientSockets (reaper sweep (run e evs w1)) (nextClient w)) = OPEN"
      by (simp add: reaper_clients)
  qed
  have absent: "map_of (activeConnections w) (generateConnectionId t r) = None \<longrightarrow>
      map_of (activeConnections (run e evs w1)) (generateConnectionId t r) = None
      \<and> (\<forall>ws' d now'.
           geminiSockets (snd (step e (ClientMessage (generateConnectionId t r) ws' d now') (run e evs w1)))
           = geminiSockets (run e evs w1))"
  proof
    assume "map_of (activeConnections w) (generateConnectionId t r) = None"
    then have "map_of (activeConnections w1) (generateConnectionId t r) = None"
      by (simp add: w1)
    with nokey have none: "map_of (activeConnections (run e evs w1)) (generateConnectionId t r) = None"
      by (rule missing_key_entry_absent)
    have "\<And>ws' d now'.
           geminiSockets (snd (step e (ClientMessage (generateConnectionId t r) ws' d now') (run e evs w1)))
           = geminiSockets (run e evs w1)"
    proof -
      fix ws' d now'
      show "geminiSockets (snd (step e (ClientMessage (generateConnectionId t r) ws' d now') (run e evs w1)))
           = geminiSockets (run e evs w1)"
      proof (cases d)
        case (Buffer b)
        with unregistered_message_ignored(1) [OF none] show ?thesis by simp
      next
        case (Str p)
        with unregistered_message_ignored(2,3) [OF none] show ?thesis
          by (cases p) (simp_all add: client_send_fields)
      qed
    qed
    with none show "map_of (activeConnections (run e evs w1)) (generateConnectionId t r) = None
      \<and> (\<forall>ws' d now'.
           geminiSockets (snd (step e (ClientMessage (generateConnectionId t r) ws' d now') (run e evs w1)))
           = geminiSockets (run e evs w1))"
      by simp
  qed
  show ?thesis
    using conn init stays absent unfolding w1_def event_texts by blast
qed

theorem missing_credential_session_witness:
  \<open>step env_without_key connect_event initial_world =
     (None, initial_world\<lparr>clientSockets := (clientSockets initial_world)
              (0 := \<lparr>readyState = OPEN,
                     sent = [Text ''{"type":"error","message":"Server is missing Gemini API key. Ask the administrator to set GEMINI_API_KEY."}''],
                     closeCalls = 0\<rparr>),
            nextClient := Suc 0\<rparr>)
   \<and> readyState (clientSockets
        (run env_without_key
           [ClientMessage ''conn_1000_deadbeef'' 0 (Buffer [1, 2, 3]) 2000, ReaperTick 400000]
           (snd (step env_without_key connect_event initial_world))) 0) = OPEN
   \<and> readyState (clientSockets
        (reaper 800000 (run env_without_key
           [ClientMessage ''conn_1000_deadbeef'' 0 (Buffer [1, 2, 3]) 2000, ReaperTick 400000]
           (snd (step env_without_key connect_event initial_world)))) 0) = OPEN
   \<and> map_of (activeConnections
        (run env_without_key
           [ClientMessage ''conn_1000_deadbeef'' 0 (Buffer [1, 2, 3]) 2000, ReaperTick 400000]
           (snd (step env_without_key connect_event initial_world)))) ''conn_1000_deadbeef'' = None\<close>
proof -
  note inst = missing_credential_session
      [OF env_without_key_falsy, of 1000 "[0xde, 0xad, 0xbe, 0xef]" Constructed 1001 initial_world 0
          "''conn_1000_deadbeef''" 1001
          "[ClientMessage ''conn_1000_deadbeef'' 0 (Buffer [1, 2, 3]) 2000, ReaperTick 400000]"
          800000]
  have n: "nextClient initial_world = 0" by (simp add: initial_world_def)
  have absent: "map_of (activeConnections initial_world) ''conn_1000_deadbeef'' = None"
    by (simp add: initial_world_def)
  have noclose: "\<forall>k'. ClientClose k' 0 \<notin>
        set [ClientMessage ''conn_1000_deadbeef'' 0 (Buffer [1, 2, 3]) 2000, ReaperTick 400000]
      \<and> ClientError k' 0 \<notin>
        set [ClientMessage ''conn_1000_deadbeef'' 0 (Buffer [1, 2, 3]) 2000, ReaperTick 400000]"
    by simp
  note s1 = inst [THEN conjunct1, unfolded n]
  note s3 = inst [THEN conjunct2, THEN conjunct2, THEN conjunct1, unfolded n, THEN mp, OF noclose]
  note s4 = inst [THEN conjunct2, THEN conjunct2, THEN conjunct2, unfolded connect_event_id,
                  THEN mp, OF absent, THEN conjunct1]
  from s1 s3 s4 show ?thesis
    unfolding connect_event_def by (intro conjI) simp_all
qed




section \<open>Teardown\<close>

text \<open>
  \<^bold>\<open>C6.\<close> \<open>cleanupConnection\<close> is idempotent: a second call with the same identifier returns
  the world the first call left. After the first call the identifier is not in the
  registry, so a record is removed once; over both calls \<^verbatim>\<open>close\<close> is called at most once on
  any upstream socket; and a call with an identifier that is not in the registry changes
  nothing. The function has no exception to throw.
\<close>

theorem cleanupConnection_idempotent:
  "cleanupConnection connectionId (cleanupConnection connectionId w) = cleanupConnection connectionId w
   \<and> map_of (activeConnections (cleanupConnection connectionId w)) connectionId = None
   \<and> (\<forall>g. closeCalls (geminiSockets (cleanupConnection connectionId (cleanupConnection connectionId w)) g)
            \<le> Suc (closeCalls (geminiSockets w g)))
   \<and> (map_of (activeConnections w) connectionId = None \<longrightarrow> cleanupConnection connectionId w = w)"
proof -
  have gone: "map_of (activeConnections (cleanupConnection connectionId w)) connectionId = None"
    by (simp add: cleanupConnection_registry)
  then have idem: "cleanupConnection connectionId (cleanupConnection connectionId w)
      = cleanupConnection connectionId w"
    by (rule cleanupConnection_absent)
  show ?thesis
    using gone idem cleanupConnection_closeCalls cleanupConnection_absent by simp
qed

theorem cleanupConnection_idempotent_witness:
  "map_of (activeConnections initial_world) ''conn_1000_deadbeef'' = None
   \<and> cleanupConnection ''conn_1000_deadbeef'' initial_world = initial_world
   \<and> cleanupConnection ''conn_1000_deadbeef'' (cleanupConnection ''conn_1000_deadbeef'' world_ready)
       = cleanupConnection ''conn_1000_deadbeef'' world_ready
   \<and> closeCalls (geminiSockets
        (cleanupConnection ''conn_1000_deadbeef'' (cleanupConnection ''conn_1000_deadbeef'' world_ready)) 0)
       \<le> Suc (closeCalls (geminiSockets world_ready 0))"
proof -
  have absent: "map_of (activeConnections initial_world) ''conn_1000_deadbeef'' = None"
    by (simp add: initial_world_def)
  with cleanupConnection_idempotent [of "''conn_1000_deadbeef''" initial_world]
  have "cleanupConnection ''conn_1000_deadbeef'' initial_world = initial_world"
    by blast
  with absent cleanupConnection_idempotent [of "''conn_1000_deadbeef''" world_ready]
  show ?thesis
    by blast
qed

section \<open>Audio frames once the upstream is ready\<close>

lemma audio_frames_sent:
  assumes "map_of (activeConnections w) k = Some c" "connected c"
    "readyState (geminiSockets w (geminiWs c)) = OPEN"
  shows "sent (geminiSockets (run e (audio_frames k ws frames) w) (geminiWs c)) =
           sent (geminiSockets w (geminiWs c)) @ map (\<lambda>(d, t). audio_envelope d) frames"
  using assms
proof (induction frames arbitrary: w c)
  case Nil
  then show ?case by (simp add: audio_frames_def)
next
  case (Cons f frames)
  obtain d t where f: "f = (d, t)" by (cases f)
  define w1 where "w1 = snd (step e (ClientMessage k ws (Buffer d) t) w)"
  have st: "w1 = (modify k (\<lambda>c. c\<lparr>lastActivity := t\<rparr>) w)
        \<lparr>geminiSockets := (geminiSockets w)
           (geminiWs c := (geminiSockets w (geminiWs c))
              \<lparr>sent := sent (geminiSockets w (geminiWs c)) @ [audio_envelope d]\<rparr>)\<rparr>"
    using Cons.prems by (simp add: w1_def client_on_message_def handleAudioInput_forwarded)
  have reg: "map_of (activeConnections w1) k = Some (c\<lparr>lastActivity := t\<rparr>)"
    using Cons.prems by (simp add: st modify_fields)
  have con: "connected (c\<lparr>lastActivity := t\<rparr>)"
    using Cons.prems by simp
  have op: "readyState (geminiSockets w1 (geminiWs (c\<lparr>lastActivity := t\<rparr>))) = OPEN"
    using Cons.prems by (simp add: st)
  have "sent (geminiSockets (run e (audio_frames k ws frames) w1) (geminiWs c))
      = sent (geminiSockets w1 (geminiWs c)) @ map (\<lambda>(d, t). audio_envelope d) frames"
    using Cons.IH [OF reg con op] by simp
  moreover have "run e (audio_frames k ws (f # frames)) w = run e (audio_frames k ws frames) w1"
    by (simp add: f audio_frames_def w1_def)
  moreover have "sent (geminiSockets w1 (geminiWs c))
      = sent (geminiSockets w (geminiWs c)) @ [audio_envelope d]"
    by (simp add: st)
  ultimately show ?case
    by (simp add: f)
qed

text \<open>
  \<^bold>\<open>C7.\<close> When the record is ready and the upstream socket is open, a sequence of binary
  frames from the client appends to the log of the upstream socket one audio envelope for
  each frame, in the order of the frames, each envelope carrying the base64 text of the bytes
  of its frame.
\<close>

theorem audio_frames_forwarded_in_order:
  assumes "map_of (activeConnections w) connectionId = Some connection"
    and "connected connection"
    and "readyState (geminiSockets w (geminiWs connection)) = OPEN"
  shows "sent (geminiSockets (run e (audio_frames connectionId ws frames) w) (geminiWs connection)) =
           sent (geminiSockets w (geminiWs connection))
           @ map (\<lambda>(audioData, now).
                    Text (JSON_stringify
                      (JObj [(''realtimeInput'', JObj
                        [(''audio'', JObj [(''mimeType'', JStr ''audio/pcm''),
                                           (''data'', JStr (toString_base64 audioData))])])])))
               frames"
  using audio_frames_sent [OF assms, of e ws frames]
  by (simp add: audio_envelope_def)

theorem audio_frames_forwarded_witness:
  \<open>sent (geminiSockets
      (run env_with_key
         (audio_frames ''conn_1000_deadbeef'' 0 [([0x4d, 0x61, 0x6e], 2000), ([0x4d, 0x61], 2001)])
         world_ready) 0)
   = sent (geminiSockets world_ready 0)
     @ [Text ''{"realtimeInput":{"audio":{"mimeType":"audio/pcm","data":"TWFu"}}}'',
        Text ''{"realtimeInput":{"audio":{"mimeType":"audio/pcm","data":"TWE="}}}'']\<close>
proof -
  have "JSON_stringify (JObj [(''realtimeInput'', JObj
          [(''audio'', JObj [(''mimeType'', JStr ''audio/pcm''),
                             (''data'', JStr (toString_base64 [0x4d, 0x61, 0x6e]))])])])
        = ''{\"realtimeInput\":{\"audio\":{\"mimeType\":\"audio/pcm\",\"data\":\"TWFu\"}}}''"
    by code_simp
  moreover have "JSON_stringify (JObj [(''realtimeInput'', JObj
          [(''audio'', JObj [(''mimeType'', JStr ''audio/pcm''),
                             (''data'', JStr (toString_base64 [0x4d, 0x61]))])])])
        = ''{\"realtimeInput\":{\"audio\":{\"mimeType\":\"audio/pcm\",\"data\":\"TWE=\"}}}''"
    by code_simp
  ultimately show ?thesis
    using audio_frames_forwarded_in_order
            [OF world_ready_entry, of env_with_key 0
               "[([0x4d, 0x61, 0x6e], 2000), ([0x4d, 0x61], 2001)]"]
          world_ready_gemini
    by simp
qed

section \<open>Signals from the upstream\<close>

lemma signal_step:
  assumes "map_of (activeConnections w) k = Some c"
    and "readyState (clientSockets w (clientWs c)) = OPEN"
    and "(gc, i, tc, name) \<in> {(True, False, False, ''generation_complete''),
            (False, True, False, ''interrupted''), (False, False, True, ''turn_complete'')}"
  shows "snd (step e (GeminiMessage k (Some (signal gc i tc))) w) =
     (modify k (\<lambda>c. c\<lparr>isGenerating := False\<rparr>) w)
        \<lparr>clientSockets := (clientSockets w)
           (clientWs c := (clientSockets w (clientWs c))
              \<lparr>sent := sent (clientSockets w (clientWs c)) @ [type_event name]\<rparr>)\<rparr>"
  using assms
  by (auto simp add: gemini_on_message_def handleGeminiMessage_def seq_def signal_def
      client_send_OPEN modify_fields)

lemma type_events_distinct:
  "distinct [type_event ''generation_complete'', type_event ''interrupted'', type_event ''turn_complete'']"
  by (simp add: type_event_def quote_def quote_char_def)

lemma upstream_signals_run:
  assumes rec: "map_of (activeConnections w) k = Some c"
    and opn: "readyState (clientSockets w (clientWs c)) = OPEN"
  shows "sent (clientSockets
            (run e [GeminiMessage k (Some (signal True False False)),
                    GeminiMessage k (Some (signal False True False)),
                    GeminiMessage k (Some (signal False False True))] w) (clientWs c))
          = sent (clientSockets w (clientWs c))
            @ [type_event ''generation_complete'', type_event ''interrupted'',
               type_event ''turn_complete'']
       \<and> distinct [type_event ''generation_complete'', type_event ''interrupted'',
                   type_event ''turn_complete'']
       \<and> map_option isGenerating (map_of (activeConnections
            (run e [GeminiMessage k (Some (signal True False False))] w)) k) = Some False
       \<and> map_option isGenerating (map_of (activeConnections
            (run e [GeminiMessage k (Some (signal True False False)),
                    GeminiMessage k (Some (signal False True False))] w)) k) = Some False
       \<and> map_option isGenerating (map_of (activeConnections
            (run e [GeminiMessage k (Some (signal True False False)),
                    GeminiMessage k (Some (signal False True False)),
                    GeminiMessage k (Some (signal False False True))] w)) k) = Some False"
proof -
  define w1 where "w1 = snd (step e (GeminiMessage k (Some (signal True False False))) w)"
  define w2 where "w2 = snd (step e (GeminiMessage k (Some (signal False True False))) w1)"
  define w3 where "w3 = snd (step e (GeminiMessage k (Some (signal False False True))) w2)"
  let ?c = "c\<lparr>isGenerating := False\<rparr>"
  have s1: "w1 = (modify k (\<lambda>c. c\<lparr>isGenerating := False\<rparr>) w)
        \<lparr>clientSockets := (clientSockets w)
           (clientWs c := (clientSockets w (clientWs c))
              \<lparr>sent := sent (clientSockets w (clientWs c)) @ [type_event ''generation_complete'']\<rparr>)\<rparr>"
    unfolding w1_def using rec opn by (intro signal_step) simp_all
  have rec1: "map_of (activeConnections w1) k = Some ?c"
    using rec by (simp add: s1 modify_fields)
  have opn1: "readyState (clientSockets w1 (clientWs ?c)) = OPEN"
    using opn by (simp add: s1)
  have s2: "w2 = (modify k (\<lambda>c. c\<lparr>isGenerating := False\<rparr>) w1)
        \<lparr>clientSockets := (clientSockets w1)
           (clientWs ?c := (clientSockets w1 (clientWs ?c))
              \<lparr>sent := sent (clientSockets w1 (clientWs ?c)) @ [type_event ''interrupted'']\<rparr>)\<rparr>"
    unfolding w2_def using rec1 opn1 by (intro signal_step) simp_all
  have rec2: "map_of (activeConnections w2) k = Some ?c"
    using rec1 by (simp add: s2 modify_fields)
  have opn2: "readyState (clientSockets w2 (clientWs ?c)) = OPEN"
    using opn1 by (simp add: s2)
  have s3: "w3 = (modify k (\<lambda>c. c\<lparr>isGenerating := False\<rparr>) w2)
        \<lparr>clientSockets := (clientSockets w2)
           (clientWs ?c := (clientSockets w2 (clientWs ?c))
              \<lparr>sent := sent (clientSockets w2 (clientWs ?c)) @ [type_event ''turn_complete'']\<rparr>)\<rparr>"
    unfolding w3_def using rec2 opn2 by (intro signal_step) simp_all
  have rec3: "map_of (activeConnections w3) k = Some ?c"
    using rec2 by (simp add: s3 modify_fields)
  have log: "sent (clientSockets w3 (clientWs c)) = sent (clientSockets w (clientWs c))
      @ [type_event ''generation_complete'', type_event ''interrupted'', type_event ''turn_complete'']"
    by (simp add: s3 s2 s1 modify_fields)
  have r1: "run e [GeminiMessage k (Some (signal True False False))] w = w1"
    by (simp add: w1_def)
  have r2: "run e [GeminiMessage k (Some (signal True False False)),
                   GeminiMessage k (Some (signal False True False))] w = w2"
    by (simp add: w1_def w2_def)
  have r3: "run e [GeminiMessage k (Some (signal True False False)),
                   GeminiMessage k (Some (signal False True False)),
                   GeminiMessage k (Some (signal False False True))] w = w3"
    by (simp add: w1_def w2_def w3_def)
  show ?thesis
    unfolding r1 r2 r3 using log rec1 rec2 rec3 type_events_distinct by simp
qed

text \<open>
  \<^bold>\<open>C8.\<close> For a registered connection whose client socket is open, the upstream messages
  \<open>generationComplete\<close>, \<open>interrupted\<close>, \<open>turnComplete\<close>, in this order, append to the log of
  the client socket the three texts \<^verbatim>\<open>{"type":"generation_complete"}\<close>,
  \<^verbatim>\<open>{"type":"interrupted"}\<close>, \<^verbatim>\<open>{"type":"turn_complete"}\<close> in this order and nothing else;
  the three are different; and \<open>isGenerating\<close> is false in the record after each of the three
  messages.
\<close>

theorem upstream_signals_forwarded_in_order:
  assumes rec: \<open>map_of (activeConnections w) k = Some c\<close>
    and opn: \<open>readyState (clientSockets w (clientWs c)) = OPEN\<close>
  shows \<open>sent (clientSockets
            (run e [GeminiMessage k (Some (signal True False False)),
                    GeminiMessage k (Some (signal False True False)),
                    GeminiMessage k (Some (signal False False True))] w) (clientWs c))
          = sent (clientSockets w (clientWs c))
            @ [Text ''{"type":"generation_complete"}'', Text ''{"type":"interrupted"}'',
               Text ''{"type":"turn_complete"}'']
       \<and> distinct [Text ''{"type":"generation_complete"}'', Text ''{"type":"interrupted"}'',
                   Text ''{"type":"turn_complete"}'']
       \<and> map_option isGenerating (map_of (activeConnections
            (run e [GeminiMessage k (Some (signal True False False))] w)) k) = Some False
       \<and> map_option isGenerating (map_of (activeConnections
            (run e [GeminiMessage k (Some (signal True False False)),
                    GeminiMessage k (Some (signal False True False))] w)) k) = Some False
       \<and> map_option isGenerating (map_of (activeConnections
            (run e [GeminiMessage k (Some (signal True False False)),
                    GeminiMessage k (Some (signal False True False)),
                    GeminiMessage k (Some (signal False False True))] w)) k) = Some False\<close>
  using upstream_signals_run [OF rec opn, of e]
  unfolding event_texts .

theorem upstream_signals_witness:
  \<open>sent (clientSockets
      (run env_with_key [GeminiMessage ''conn_1000_deadbeef'' (Some (signal True False False)),
                         GeminiMessage ''conn_1000_deadbeef'' (Some (signal False True False)),
                         GeminiMessage ''conn_1000_deadbeef'' (Some (signal False False True))]
         world_ready) 0)
     = sent (clientSockets world_ready 0)
       @ [Text ''{"type":"generation_complete"}'', Text ''{"type":"interrupted"}'',
          Text ''{"type":"turn_complete"}'']
   \<and> map_option isGenerating (map_of (activeConnections
        (run env_with_key [GeminiMessage ''conn_1000_deadbeef'' (Some (signal True False False))]
           world_ready)) ''conn_1000_deadbeef'') = Some False\<close>
  using upstream_signals_forwarded_in_order [OF world_ready_entry, of env_with_key] world_ready_client
  by simp

section \<open>Ping\<close>





section \<open>Connection identifiers\<close>

text \<open>
  When two connections are given the same identifier: \<open>generateConnectionId\<close> is injective,
  so only when the clock and the random bytes both coincide.
\<close>
lemma connection_ids_distinct_iff:
  "distinct (connection_ids draws) \<longleftrightarrow> distinct draws"
proof -
  have "inj_on (\<lambda>(now, randomBytes). generateConnectionId now randomBytes) (set draws)"
    by (auto simp add: inj_on_def dest: generateConnectionId_inj)
  then show ?thesis
    by (simp add: connection_ids_def distinct_map)
qed

text \<open>
  \<^bold>\<open>C10.\<close> The identifiers of the connections of one process are to be pairwise different;
  line 343 says \<^verbatim>\<open>Generate unique connection ID\<close>, and the registry is keyed by them. The
  code does not see to it: the identifier is made of the clock and of four random bytes and
  of nothing else, and nothing looks for a collision. Two connections accepted in the same
  millisecond that draw the same bytes are both \<^verbatim>\<open>conn_1000_deadbeef\<close>; the record of the
  second overwrites the record of the first, so the registry shows one connection where two
  clients are connected, and when the first client closes, the record of the second is
  deleted.
\<close>

theorem generateConnectionId_collision:
  "connection_ids [(1000, [0xde, 0xad, 0xbe, 0xef]), (1000, [0xde, 0xad, 0xbe, 0xef])]
     = [''conn_1000_deadbeef'', ''conn_1000_deadbeef'']
   \<and> \<not> distinct (connection_ids [(1000, [0xde, 0xad, 0xbe, 0xef]), (1000, [0xde, 0xad, 0xbe, 0xef])])
   \<and> nextClient (run env_with_key [connect_event, connect_event] initial_world) = 2
   \<and> activeConnections (run env_with_key [connect_event, connect_event] initial_world)
       = [(''conn_1000_deadbeef'',
           \<lparr>clientWs = 1, geminiWs = 1, connected = False, lastActivity = 1001,
            isGenerating = False\<rparr>)]
   \<and> activeConnections
        (run env_with_key [connect_event, connect_event, ClientClose ''conn_1000_deadbeef'' 0]
           initial_world) = []"
  by code_simp

end
